theory Spec2Isabelle
  imports Main "HOL-Library.Word"
begin

section \<open>The Go environment of client.go\<close>

text \<open>
  The file client.go is a SOCKS5 front end: \<open>Service.handShake\<close> and \<open>Service.getRequest\<close>
  parse the two client messages, \<open>Service.handleConnection\<close> drives one accepted
  connection, \<open>Service.pipeThenClose\<close> is one direction of the relay and \<open>Service.Stop\<close>
  shuts the service down.

  A \<open>net.Conn\<close> is driven by its environment. The model gives every connection two
  scripts: \<open>rd\<close> lists what successive \<open>Read\<close> calls find (a chunk of bytes and the
  error that comes with it, if any; an exhausted script is end of stream), and \<open>wr\<close>
  lists the outcome of successive \<open>Write\<close> calls (an exhausted script means success).
\<close>

type_synonym byte = "8 word"

datatype error =
    EOF
  | ErrUnexpectedEOF
  | ErrShortBuffer
  | OpError bool  \<comment> \<open>a \<open>*net.OpError\<close>; the flag is the value of \<open>Timeout()\<close>\<close>
  | errAddrType
  | errVer
  | errMethod
  | errAuthExtraData
  | errReqExtraData
  | errCmd

record conn =
  rd :: "(byte list \<times> error option) list"
  wr :: "error option list"

text \<open>
  \<open>Read k c\<close> is \<open>c.Read(p)\<close> with \<open>len(p) = k\<close>: it returns at most \<open>k\<close> bytes of the
  chunk at the head of the script; bytes that do not fit stay in the stream, together
  with the error of the chunk.
\<close>

definition Read :: "nat \<Rightarrow> conn \<Rightarrow> (byte list \<times> error option) \<times> conn" where
  "Read k c =
     (case rd c of
        [] \<Rightarrow> (([], Some EOF), c)
      | (bs, e) # rest \<Rightarrow>
          if length bs \<le> k then ((bs, e), c\<lparr>rd := rest\<rparr>)
          else ((take k bs, None), c\<lparr>rd := (drop k bs, e) # rest\<rparr>))"

text \<open>
  \<open>Write p c\<close> is \<open>c.Write(p)\<close>. By the contract of \<open>io.Writer\<close> a write that returns
  no error has written all of \<open>p\<close>, so only the error is returned.
\<close>

definition Write :: "byte list \<Rightarrow> conn \<Rightarrow> error option \<times> conn" where
  "Write p c =
     (case wr c of
        [] \<Rightarrow> (None, c)
      | e # rest \<Rightarrow> (e, c\<lparr>wr := rest\<rparr>))"

text \<open>
  \<open>io.ReadAtLeast(r, buf, min)\<close> of the standard library: it reads into \<open>buf[n:]\<close>
  while \<open>n < min\<close> and no error came back. The bytes read so far are \<open>acc\<close>, so
  \<open>n = length acc\<close>. The test \<open>length acc < cap\<close> only closes the case of a buffer
  shorter than \<open>min\<close>, which \<open>ReadAtLeast\<close> rejects before it enters the loop.
\<close>

function ReadAtLeast_loop ::
  "nat \<Rightarrow> nat \<Rightarrow> byte list \<Rightarrow> conn \<Rightarrow> byte list \<times> error option \<times> conn" where
  "ReadAtLeast_loop cap mn acc c =
     (if length acc < mn \<and> length acc < cap then
        (case Read (cap - length acc) c of
           ((bs, None), c') \<Rightarrow> ReadAtLeast_loop cap mn (acc @ bs) c'
         | ((bs, Some e), c') \<Rightarrow> (acc @ bs, Some e, c'))
      else (acc, None, c))"
  by pat_completeness auto
termination
proof (relation "measure (\<lambda>(cap, mn, acc, c). length (rd c) + (mn - length acc))")
  show "wf (measure (\<lambda>(cap, mn, acc, c). length (rd c) + (mn - length acc)))"
    by simp
next
  fix cap mn :: nat and acc :: "byte list" and c :: conn and x c' xa y
  assume g: "length acc < mn \<and> length acc < cap"
    and r: "(x, c') = Read (cap - length acc) c" "(xa, y) = x" "y = None"
  show "((cap, mn, acc @ xa, c'), (cap, mn, acc, c))
        \<in> measure (\<lambda>(cap, mn, acc, c). length (rd c) + (mn - length acc))"
  proof (cases "rd c")
    case Nil
    with r show ?thesis by (simp add: Read_def)
  next
    case (Cons p rest)
    obtain bs e where p: "p = (bs, e)" by (cases p)
    show ?thesis
    proof (cases "length bs \<le> cap - length acc")
      case True
      with r Cons p g show ?thesis by (auto simp: Read_def)
    next
      case False
      with r Cons p g show ?thesis by (auto simp: Read_def)
    qed
  qed
qed

definition ReadAtLeast :: "conn \<Rightarrow> nat \<Rightarrow> nat \<Rightarrow> byte list \<times> error option \<times> conn" where
  "ReadAtLeast c cap mn =
     (if cap < mn then ([], Some ErrShortBuffer, c)
      else
        (case ReadAtLeast_loop cap mn [] c of
           (got, e, c') \<Rightarrow>
             if mn \<le> length got then (got, None, c')
             else if 0 < length got \<and> e = Some EOF then (got, Some ErrUnexpectedEOF, c')
             else (got, e, c')))"

definition ReadFull :: "conn \<Rightarrow> nat \<Rightarrow> byte list \<times> error option \<times> conn" where
  "ReadFull c cap = ReadAtLeast c cap cap"

section \<open>What a run leaves behind\<close>

text \<open>
  Every effect of the code on the outside is recorded as an event, in program order:
  the writes with their outcome, the closes, the dial of the tunnel, the log lines,
  the calls of the traffic listener and the calls on the wait group.
\<close>

datatype peer = Client | Remote

datatype event =
    EvWrite peer "byte list" "error option"
  | EvClose peer
  | EvDial "byte list" string
  | EvLog string "error option"
  | EvSent nat
  | EvReceived nat
  | EvWgAdd nat
  | EvWgDone

text \<open>A panic of the Go runtime is a result of its own.\<close>

datatype 'a go = Panic | Ret 'a

section \<open>The service\<close>

datatype chan = Open | Closed

datatype TrafficListener = Listener

record ServerCipher =
  server :: string

text \<open>
  The struct \<open>Service\<close>. The channel \<open>ch\<close> is only ever closed, the wait group is its
  counter, \<open>debug\<close> is the \<open>ss.DebugLog\<close> flag and \<open>trafficListener\<close> is \<open>None\<close> for the
  nil interface. The cipher of \<open>ServerCipher\<close> is opaque to this file and left out; the
  service is taken to be configured, that is \<open>serverCipher\<close> is not nil.
\<close>

record Service =
  ch :: chan
  waitGroup :: nat
  serverCipher :: ServerCipher
  debug :: bool
  trafficListener :: "TrafficListener option"

definition socksVer5 :: byte where "socksVer5 = 5"
definition socksCmdConnect :: byte where "socksCmdConnect = 1"
definition directionOutput :: int where "directionOutput = 0"
definition directionInput :: int where "directionInput = 1"

definition NewService :: "ServerCipher \<Rightarrow> Service" where
  "NewService sc =
     \<lparr>ch = Open, waitGroup = 0 + 1, serverCipher = sc, debug = True, trafficListener = None\<rparr>"

definition SetTrafficListener :: "Service \<Rightarrow> TrafficListener option \<Rightarrow> Service" where
  "SetTrafficListener s listener = s\<lparr>trafficListener := listener\<rparr>"

text \<open>
  \<open>s.debug.Println(...)\<close> and \<open>s.debug.Printf(...)\<close>: a \<open>DebugLog\<close> prints when it is
  true. A log line is recorded by its text and the error it reports.
\<close>

definition Println :: "Service \<Rightarrow> string \<Rightarrow> error option \<Rightarrow> event list" where
  "Println s msg e = (if debug s then [EvLog msg e] else [])"

section \<open>handShake\<close>

text \<open>
  \<open>buf := make([]byte, 258)\<close> is zeroed; the bytes read land at its start. The reply
  \<open>{5, 0}\<close> is the only write. The deadline that \<open>ss.SetReadTimeout\<close> sets shows in
  the model as a timeout error in the read script.
\<close>

definition fill :: "nat \<Rightarrow> byte list \<Rightarrow> byte list" where
  "fill cap got = got @ replicate (cap - length got) 0"

definition handShake :: "conn \<Rightarrow> error option \<times> event list \<times> conn" where
  "handShake c =
     (case ReadAtLeast c 258 (1 + 1) of
        (got, Some e, c1) \<Rightarrow> (Some e, [], c1)
      | (got, None, c1) \<Rightarrow>
          (let buf = fill 258 got; n = length got in
           if buf ! 0 \<noteq> socksVer5 then (Some errVer, [], c1)
           else
             (let nmethod = unat (buf ! 1); msgLen = nmethod + 2 in
              if n = msgLen then
                (case Write [socksVer5, 0] c1 of
                   (e, c2) \<Rightarrow> (e, [EvWrite Client [socksVer5, 0] e], c2))
              else if n < msgLen then
                (case ReadFull c1 (msgLen - n) of
                   (topup, Some e, c2) \<Rightarrow> (Some e, [], c2)
                 | (topup, None, c2) \<Rightarrow>
                     (case Write [socksVer5, 0] c2 of
                        (e, c3) \<Rightarrow> (e, [EvWrite Client [socksVer5, 0] e], c3)))
              else (Some errAuthExtraData, [], c1))))"

section \<open>getRequest\<close>

definition lenIPv4 :: nat where "lenIPv4 = 3 + 1 + 4 + 2"
definition lenIPv6 :: nat where "lenIPv6 = 3 + 1 + 16 + 2"
definition lenDmBase :: nat where "lenDmBase = 3 + 1 + 1 + 2"

text \<open>
  The \<open>switch buf[idType]\<close> that sets \<open>reqLen\<close>; \<open>None\<close> is its default branch, which
  returns \<open>errAddrType\<close>.
\<close>

definition reqLen :: "byte list \<Rightarrow> nat option" where
  "reqLen buf =
     (if buf ! 3 = 1 then Some lenIPv4
      else if buf ! 3 = 4 then Some lenIPv6
      else if buf ! 3 = 3 then Some (unat (buf ! 4) + lenDmBase)
      else None)"

text \<open>
  A slice expression \<open>buf[lo:hi]\<close> panics unless \<open>lo \<le> hi \<le> cap(buf)\<close>.
\<close>

definition go_slice :: "'a list \<Rightarrow> nat \<Rightarrow> nat \<Rightarrow> 'a list go" where
  "go_slice buf lo hi =
     (if lo \<le> hi \<and> hi \<le> length buf then Ret (take (hi - lo) (drop lo buf)) else Panic)"

text \<open>
  \<open>strconv.Itoa\<close> on a port and \<open>net.JoinHostPort\<close> of the standard library;
  \<open>string(bytes)\<close> keeps the bytes.
\<close>

fun Itoa :: "nat \<Rightarrow> string" where
  "Itoa n = (if n < 10 then [char_of (48 + n)] else Itoa (n div 10) @ [char_of (48 + n mod 10)])"

definition JoinHostPort :: "string \<Rightarrow> string \<Rightarrow> string" where
  "JoinHostPort host port =
     (if CHR '':'' \<in> set host then ''['' @ host @ '']:'' @ port else host @ '':'' @ port)"

definition string_of_bytes :: "byte list \<Rightarrow> string" where
  "string_of_bytes bs = map (\<lambda>b. char_of (unat b)) bs"

definition Uint16 :: "byte list \<Rightarrow> nat" where
  "Uint16 b = unat (b ! 1) + 256 * unat (b ! 0)"

text \<open>
  The block under \<open>if s.debug\<close>, which builds the host string for the log.
  \<open>ipString\<close> is \<open>net.IP.String\<close> of the standard library, a parameter here. In the
  domain case the upper bound \<open>idDm0+buf[idDmLen]\<close> is a sum of type \<open>byte\<close>: it wraps
  at 256.
\<close>

definition debug_host :: "(byte list \<Rightarrow> string) \<Rightarrow> byte list \<Rightarrow> nat \<Rightarrow> string go" where
  "debug_host ipString buf rl =
     (case (if buf ! 3 = 1 then
              (case go_slice buf 4 (4 + 4) of Panic \<Rightarrow> Panic | Ret ip \<Rightarrow> Ret (ipString ip))
            else if buf ! 3 = 4 then
              (case go_slice buf 4 (4 + 16) of Panic \<Rightarrow> Panic | Ret ip \<Rightarrow> Ret (ipString ip))
            else if buf ! 3 = 3 then
              (case go_slice buf 5 (unat ((5::byte) + buf ! 4)) of
                 Panic \<Rightarrow> Panic | Ret dm \<Rightarrow> Ret (string_of_bytes dm))
            else Ret []) of
        Panic \<Rightarrow> Panic
      | Ret host \<Rightarrow>
          (case go_slice buf (rl - 2) rl of
             Panic \<Rightarrow> Panic
           | Ret pb \<Rightarrow> Ret (JoinHostPort host (Itoa (Uint16 pb)))))"

text \<open>
  \<open>getRequest\<close> returns \<open>(rawaddr, host, err)\<close>; the connection is returned with what is
  left of its stream. On an error return \<open>rawaddr\<close> is still nil and \<open>host\<close> empty.
\<close>

definition request_result ::
  "(byte list \<Rightarrow> string) \<Rightarrow> Service \<Rightarrow> byte list \<Rightarrow> nat \<Rightarrow> conn
     \<Rightarrow> (byte list \<times> string \<times> error option \<times> conn) go" where
  "request_result ipString s buf rl c =
     (case go_slice buf 3 rl of
        Panic \<Rightarrow> Panic
      | Ret rawaddr \<Rightarrow>
          if debug s then
            (case debug_host ipString buf rl of
               Panic \<Rightarrow> Panic
             | Ret host \<Rightarrow> Ret (rawaddr, host, None, c))
          else Ret (rawaddr, [], None, c))"

definition getRequest ::
  "(byte list \<Rightarrow> string) \<Rightarrow> Service \<Rightarrow> conn
     \<Rightarrow> (byte list \<times> string \<times> error option \<times> conn) go" where
  "getRequest ipString s c =
     (case ReadAtLeast c 263 (4 + 1) of
        (got, Some e, c1) \<Rightarrow> Ret ([], [], Some e, c1)
      | (got, None, c1) \<Rightarrow>
          (let buf = fill 263 got; n = length got in
           if buf ! 0 \<noteq> socksVer5 then Ret ([], [], Some errVer, c1)
           else if buf ! 1 \<noteq> socksCmdConnect then Ret ([], [], Some errCmd, c1)
           else
             (case reqLen buf of
                None \<Rightarrow> Ret ([], [], Some errAddrType, c1)
              | Some rl \<Rightarrow>
                  if n = rl then request_result ipString s buf rl c1
                  else if n < rl then
                    (case ReadFull c1 (rl - n) of
                       (topup, Some e, c2) \<Rightarrow> Ret ([], [], Some e, c2)
                     | (topup, None, c2) \<Rightarrow>
                         request_result ipString s (fill 263 (got @ topup)) rl c2)
                  else Ret ([], [], Some errReqExtraData, c1))))"

section \<open>pipeThenClose\<close>

text \<open>
  The calls on the traffic listener after a write that succeeded: the \<open>switch\<close> on
  \<open>directionFlag\<close> under \<open>if s.trafficListener != nil\<close>.
\<close>

definition callback :: "Service \<Rightarrow> int \<Rightarrow> nat \<Rightarrow> event list" where
  "callback s directionFlag n =
     (case trafficListener s of
        None \<Rightarrow> []
      | Some l \<Rightarrow>
          if directionFlag = directionOutput then [EvSent n]
          else if directionFlag = directionInput then [EvReceived n]
          else [])"

text \<open>
  One pass through the body of the loop after the \<open>select\<close>: the read into the pooled
  buffer of length \<open>bufLen\<close> (the pool \<open>leakyBuf\<close> is declared outside this file, so its
  buffer length is a parameter), the write of what was read, and the treatment of the
  read error. The flag says whether the loop goes round again.
\<close>

definition pipe_step ::
  "Service \<Rightarrow> nat \<Rightarrow> peer \<Rightarrow> int \<Rightarrow> conn \<Rightarrow> conn \<Rightarrow> event list \<times> bool \<times> conn \<times> conn" where
  "pipe_step s bufLen dstp directionFlag src dst =
     (case Read bufLen src of
        ((bs, err), src') \<Rightarrow>
          (case (if 0 < length bs then
                   (case Write bs dst of
                      (Some e, dst') \<Rightarrow>
                        (EvWrite dstp bs (Some e) # Println s ''write:'' (Some e), False, dst')
                    | (None, dst') \<Rightarrow>
                        (EvWrite dstp bs None # callback s directionFlag (length bs), True, dst'))
                 else ([], True, dst)) of
             (evs, False, dst') \<Rightarrow> (evs, False, src', dst')
           | (evs, True, dst') \<Rightarrow>
               (case err of
                  None \<Rightarrow> (evs, True, src', dst')
                | Some e \<Rightarrow> (evs, e = OpError True, src', dst'))))"

text \<open>
  The loop. The channel \<open>s.ch\<close> is closed by a \<open>Stop\<close> that runs concurrently; \<open>polls\<close>
  is the number of times this loop still finds it open, so the loop returns at the
  \<open>select\<close> when \<open>polls\<close> is used up or the channel was closed from the start. Every
  value of the function is the trace of a run that leaves the loop: by the shutdown
  signal, by a failed write, or by a read error that is not a timeout (the end of the
  read script is end of stream). A run that never leaves the loop has no trace.
\<close>

fun pipe_loop ::
  "Service \<Rightarrow> nat \<Rightarrow> peer \<Rightarrow> int \<Rightarrow> nat \<Rightarrow> conn \<Rightarrow> conn \<Rightarrow> event list" where
  "pipe_loop s bufLen dstp directionFlag 0 src dst = []"
| "pipe_loop s bufLen dstp directionFlag (Suc polls) src dst =
     (if ch s = Closed then []
      else
        (case pipe_step s bufLen dstp directionFlag src dst of
           (evs, True, src', dst') \<Rightarrow> evs @ pipe_loop s bufLen dstp directionFlag polls src' dst'
         | (evs, False, src', dst') \<Rightarrow> evs))"

text \<open>\<open>defer dst.Close()\<close> runs when the loop is left, on every path.\<close>

definition pipeThenClose ::
  "Service \<Rightarrow> nat \<Rightarrow> peer \<Rightarrow> int \<Rightarrow> nat \<Rightarrow> conn \<Rightarrow> conn \<Rightarrow> event list" where
  "pipeThenClose s bufLen dstp directionFlag polls src dst =
     pipe_loop s bufLen dstp directionFlag polls src dst @ [EvClose dstp]"

section \<open>handleConnection\<close>

text \<open>
  The handler runs in its own goroutine and starts one more for the direction from
  the remote to the client; each goroutine has its own sequence of events. The two
  relays share no part of a connection: one reads the client and writes the remote,
  the other reads the remote and writes the client. \<open>dial\<close> is
  \<open>ss.DialWithRawAddr\<close>, an external call. A panic runs the deferred calls and then
  ends the program.
\<close>

record run =
  handler :: "event list"
  spawned :: "event list"
  panicked :: bool

definition confirmation :: "byte list" where
  "confirmation = [0x05, 0x00, 0x00, 0x01, 0x00, 0x00, 0x00, 0x00, 0x08, 0x43]"

definition deferred :: "event list" where
  "deferred = [EvClose Client, EvWgDone]"

definition handleConnection ::
  "(byte list \<Rightarrow> string) \<Rightarrow> Service \<Rightarrow> nat \<Rightarrow> (byte list \<Rightarrow> string \<Rightarrow> error + conn)
     \<Rightarrow> nat \<Rightarrow> nat \<Rightarrow> conn \<Rightarrow> run" where
  "handleConnection ipString s bufLen dial polls_out polls_in c =
     (case handShake c of
        (Some e, ev1, c1) \<Rightarrow>
          \<lparr>handler = ev1 @ Println s ''socks handshake:'' (Some e) @ deferred,
           spawned = [], panicked = False\<rparr>
      | (None, ev1, c1) \<Rightarrow>
          (case getRequest ipString s c1 of
             Panic \<Rightarrow> \<lparr>handler = ev1 @ deferred, spawned = [], panicked = True\<rparr>
           | Ret (rawaddr, addr, Some e, c2) \<Rightarrow>
               \<lparr>handler = ev1 @ Println s ''error getting request:'' (Some e) @ deferred,
                spawned = [], panicked = False\<rparr>
           | Ret (rawaddr, addr, None, c2) \<Rightarrow>
               (case Write confirmation c2 of
                  (werr, c3) \<Rightarrow>
                    (let ev2 = EvWrite Client confirmation werr
                           # (case werr of
                                None \<Rightarrow> []
                              | Some e \<Rightarrow> Println s ''send connection confirmation:'' (Some e))
                           @ Println s (''connected to '' @ addr @ '' via ''
                                          @ server (serverCipher s)) None
                           @ [EvDial rawaddr (server (serverCipher s))]
                     in case dial rawaddr (server (serverCipher s)) of
                          Inl e \<Rightarrow>
                            \<lparr>handler = ev1 @ ev2 @ Println s [] (Some e) @ deferred,
                             spawned = [], panicked = False\<rparr>
                        | Inr remote \<Rightarrow>
                            \<lparr>handler = ev1 @ ev2 @ [EvWgAdd 1]
                               @ pipeThenClose s bufLen Remote directionOutput polls_out c3 remote
                               @ Println s (''closed connection to '' @ addr) None @ deferred,
                             spawned =
                               pipeThenClose s bufLen Client directionInput polls_in remote c3
                               @ [EvWgDone],
                             panicked = False\<rparr>))))"

text \<open>Two dialers for concrete runs: one returns a given connection, one fails.\<close>

definition dial_succeeds :: "conn \<Rightarrow> byte list \<Rightarrow> string \<Rightarrow> error + conn" where
  "dial_succeeds remote rawaddr srv = Inr remote"

definition dial_fails :: "error \<Rightarrow> byte list \<Rightarrow> string \<Rightarrow> error + conn" where
  "dial_fails e rawaddr srv = Inl e"

section \<open>Stop\<close>





section \<open>The request on the wire\<close>

text \<open>
  The CONNECT request as the specification lays it out: version 5, command 1, a
  reserved byte, then the raw address, which is the address type, the address (a
  domain name after its length byte) and the port in two bytes, high byte first. This
  is the encoder that the round trip of the request parser is stated against; it is
  not code of client.go.
\<close>

datatype address = IPv4 "byte list" | DomainName "byte list" | IPv6 "byte list"

definition spec_well_formed :: "address \<Rightarrow> bool" where
  "spec_well_formed a =
     (case a of
        IPv4 ip \<Rightarrow> length ip = 4
      | DomainName d \<Rightarrow> length d \<le> 255
      | IPv6 ip \<Rightarrow> length ip = 16)"

definition spec_port :: "nat \<Rightarrow> byte list" where
  "spec_port p = [of_nat (p div 256), of_nat (p mod 256)]"

definition spec_raw_address :: "address \<Rightarrow> nat \<Rightarrow> byte list" where
  "spec_raw_address a p =
     (case a of
        IPv4 ip \<Rightarrow> 1 # ip @ spec_port p
      | DomainName d \<Rightarrow> 3 # of_nat (length d) # d @ spec_port p
      | IPv6 ip \<Rightarrow> 4 # ip @ spec_port p)"

definition spec_connect_request :: "address \<Rightarrow> nat \<Rightarrow> byte list" where
  "spec_connect_request a p = [5, 1, 0] @ spec_raw_address a p"

section \<open>Stop is single-use\<close>







section \<open>One pass of the relay loop\<close>

text \<open>
  C8. When the read returned \<open>n > 0\<close> bytes and the write of them succeeds, the pass
  records the write and then calls the traffic listener with the number of bytes
  written, \<open>Sent\<close> for the outbound direction and \<open>Received\<close> for the inbound one,
  exactly when a listener is attached. When the write fails, the pass records the
  failed write and the log line only, with no call of the listener, and the loop ends
  there: nothing more is forwarded.
\<close>

theorem relay_callback_after_write:
  "(Read bufLen src = ((bs, err), src') \<and> bs \<noteq> [] \<and> Write bs dst = (None, dst') \<longrightarrow>
      fst (pipe_step s bufLen dstp directionOutput src dst)
        = EvWrite dstp bs None # (if trafficListener s = None then [] else [EvSent (length bs)])
      \<and> fst (pipe_step s bufLen dstp directionInput src dst)
        = EvWrite dstp bs None # (if trafficListener s = None then [] else [EvReceived (length bs)]))
   \<and> (Read bufLen src = ((bs, err), src') \<and> bs \<noteq> [] \<and> Write bs dst = (Some e, dst') \<longrightarrow>
      pipe_step s bufLen dstp directionFlag src dst
        = (EvWrite dstp bs (Some e) # Println s ''write:'' (Some e), False, src', dst')
      \<and> (ch s = Open \<longrightarrow>
           pipe_loop s bufLen dstp directionFlag (Suc polls) src dst
             = EvWrite dstp bs (Some e) # Println s ''write:'' (Some e)))"
  by (auto simp: pipe_step_def callback_def directionOutput_def directionInput_def
           split: option.splits)

theorem relay_callback_after_write_witness:
  "Read 4096 \<lparr>rd = [([1, 2, 3], None)], wr = []\<rparr> = (([1, 2, 3], None), \<lparr>rd = [], wr = []\<rparr>)
   \<and> Write [1, 2, 3] \<lparr>rd = [], wr = [None]\<rparr> = (None, \<lparr>rd = [], wr = []\<rparr>)
   \<and> fst (pipe_step (SetTrafficListener (NewService \<lparr>server = ''tunnel:8388''\<rparr>) (Some Listener))
             4096 Remote directionOutput \<lparr>rd = [([1, 2, 3], None)], wr = []\<rparr> \<lparr>rd = [], wr = [None]\<rparr>)
       = [EvWrite Remote [1, 2, 3] None, EvSent 3]
   \<and> fst (pipe_step (SetTrafficListener (NewService \<lparr>server = ''tunnel:8388''\<rparr>) (Some Listener))
             4096 Remote directionInput \<lparr>rd = [([1, 2, 3], None)], wr = []\<rparr> \<lparr>rd = [], wr = [None]\<rparr>)
       = [EvWrite Remote [1, 2, 3] None, EvReceived 3]
   \<and> Write [1, 2, 3] \<lparr>rd = [], wr = [Some (OpError False)]\<rparr>
       = (Some (OpError False), \<lparr>rd = [], wr = []\<rparr>)
   \<and> ch (NewService \<lparr>server = ''tunnel:8388''\<rparr>) = Open
   \<and> pipe_loop (NewService \<lparr>server = ''tunnel:8388''\<rparr>) 4096 Remote directionOutput (Suc 0)
         \<lparr>rd = [([1, 2, 3], None)], wr = []\<rparr> \<lparr>rd = [], wr = [Some (OpError False)]\<rparr>
       = [EvWrite Remote [1, 2, 3] (Some (OpError False)), EvLog ''write:'' (Some (OpError False))]"
  using relay_callback_after_write
          [of 4096 "\<lparr>rd = [([1, 2, 3], None)], wr = []\<rparr>" "[1, 2, 3]" None "\<lparr>rd = [], wr = []\<rparr>"
              "\<lparr>rd = [], wr = [None]\<rparr>" "\<lparr>rd = [], wr = []\<rparr>"
              "SetTrafficListener (NewService \<lparr>server = ''tunnel:8388''\<rparr>) (Some Listener)" Remote]
        relay_callback_after_write
          [of 4096 "\<lparr>rd = [([1, 2, 3], None)], wr = []\<rparr>" "[1, 2, 3]" None "\<lparr>rd = [], wr = []\<rparr>"
              "\<lparr>rd = [], wr = [Some (OpError False)]\<rparr>" "\<lparr>rd = [], wr = []\<rparr>"
              "NewService \<lparr>server = ''tunnel:8388''\<rparr>" Remote "OpError False" directionOutput 0]
  by (simp add: Read_def Write_def NewService_def SetTrafficListener_def Println_def)

text \<open>
  C7 (as amended). A read that fails with a timeout does not end the loop, which goes
  on to its next pass, provided the write of the bytes that came with the read, if
  any, does not fail. A read that fails with any other error, or with end of stream,
  ends the loop in this pass; when that read returned \<open>n > 0\<close> bytes, the write of
  exactly these bytes is the first thing the pass does.
\<close>

theorem relay_read_errors:
  "(Read bufLen src = ((bs, Some (OpError True)), src') \<and> (bs = [] \<or> fst (Write bs dst) = None) \<longrightarrow>
      (\<exists>evs dst'. pipe_step s bufLen dstp directionFlag src dst = (evs, True, src', dst')
         \<and> (ch s = Open \<longrightarrow>
              pipe_loop s bufLen dstp directionFlag (Suc polls) src dst
                = evs @ pipe_loop s bufLen dstp directionFlag polls src' dst')))
   \<and> (Read bufLen src = ((bs, Some e), src') \<and> e \<noteq> OpError True \<longrightarrow>
      (\<exists>evs dst'. pipe_step s bufLen dstp directionFlag src dst = (evs, False, src', dst')
         \<and> (bs \<noteq> [] \<longrightarrow> (\<exists>w rest. evs = EvWrite dstp bs w # rest))
         \<and> (ch s = Open \<longrightarrow> pipe_loop s bufLen dstp directionFlag (Suc polls) src dst = evs)))"
  by (auto simp: pipe_step_def split: option.splits prod.splits)

theorem relay_read_errors_witness:
  "Read 4096 \<lparr>rd = [([], Some (OpError True)), ([9], Some EOF)], wr = []\<rparr>
     = (([], Some (OpError True)), \<lparr>rd = [([9], Some EOF)], wr = []\<rparr>)
   \<and> ch (NewService \<lparr>server = ''tunnel:8388''\<rparr>) = Open
   \<and> pipe_loop (NewService \<lparr>server = ''tunnel:8388''\<rparr>) 4096 Remote directionOutput (Suc (Suc 0))
         \<lparr>rd = [([], Some (OpError True)), ([9], Some EOF)], wr = []\<rparr> \<lparr>rd = [], wr = []\<rparr>
       = pipe_loop (NewService \<lparr>server = ''tunnel:8388''\<rparr>) 4096 Remote directionOutput (Suc 0)
           \<lparr>rd = [([9], Some EOF)], wr = []\<rparr> \<lparr>rd = [], wr = []\<rparr>
   \<and> Read 4096 \<lparr>rd = [([9], Some EOF)], wr = []\<rparr> = (([9], Some EOF), \<lparr>rd = [], wr = []\<rparr>)
   \<and> EOF \<noteq> OpError True
   \<and> pipe_loop (NewService \<lparr>server = ''tunnel:8388''\<rparr>) 4096 Remote directionOutput (Suc 0)
         \<lparr>rd = [([9], Some EOF)], wr = []\<rparr> \<lparr>rd = [], wr = []\<rparr>
       = [EvWrite Remote [9] None]"
  using relay_read_errors
          [where bufLen = 4096 and bs = "[]" and dst = "\<lparr>rd = [], wr = []\<rparr>"
             and src = "\<lparr>rd = [([], Some (OpError True)), ([9], Some EOF)], wr = []\<rparr>"
             and src' = "\<lparr>rd = [([9], Some EOF)], wr = []\<rparr>"
             and s = "NewService \<lparr>server = ''tunnel:8388''\<rparr>" and dstp = Remote
             and directionFlag = directionOutput and polls = "Suc 0"]
        relay_read_errors
          [where bufLen = 4096 and bs = "[9]" and dst = "\<lparr>rd = [], wr = []\<rparr>"
             and src = "\<lparr>rd = [([9], Some EOF)], wr = []\<rparr>" and e = EOF
             and src' = "\<lparr>rd = [], wr = []\<rparr>"
             and s = "NewService \<lparr>server = ''tunnel:8388''\<rparr>" and dstp = Remote
             and directionFlag = directionOutput and polls = 0]
  by (simp add: Read_def Write_def NewService_def pipe_step_def callback_def)

text \<open>
  C7 as first stated fails where a read returns bytes together with a timeout and the
  write of these bytes fails: the pass ends the loop although the read error is a
  timeout.
\<close>

theorem relay_timeout_then_write_failure:
  "Read 4096 \<lparr>rd = [([1, 2, 3], Some (OpError True))], wr = []\<rparr>
     = (([1, 2, 3], Some (OpError True)), \<lparr>rd = [], wr = []\<rparr>)
   \<and> pipe_step (NewService \<lparr>server = ''tunnel:8388''\<rparr>) 4096 Remote directionOutput
         \<lparr>rd = [([1, 2, 3], Some (OpError True))], wr = []\<rparr> \<lparr>rd = [], wr = [Some (OpError False)]\<rparr>
       = ([EvWrite Remote [1, 2, 3] (Some (OpError False)), EvLog ''write:'' (Some (OpError False))],
          False, \<lparr>rd = [], wr = []\<rparr>, \<lparr>rd = [], wr = []\<rparr>)
   \<and> pipe_loop (NewService \<lparr>server = ''tunnel:8388''\<rparr>) 4096 Remote directionOutput (Suc 0)
         \<lparr>rd = [([1, 2, 3], Some (OpError True))], wr = []\<rparr> \<lparr>rd = [], wr = [Some (OpError False)]\<rparr>
       = [EvWrite Remote [1, 2, 3] (Some (OpError False)), EvLog ''write:'' (Some (OpError False))]"
  by (simp add: Read_def Write_def NewService_def pipe_step_def Println_def)

section \<open>Reading a message that arrives in chunks\<close>

declare ReadAtLeast_loop.simps [simp del]

text \<open>
  A message may reach the reader in any number of chunks, empty ones included. As long
  as the chunks fit the buffer, \<open>ReadAtLeast\<close> takes whole chunks until it has \<open>mn\<close>
  bytes, and \<open>ReadFull\<close> takes all of them.
\<close>

lemma ReadAtLeast_loop_chunks:
  assumes "mn \<le> cap" "length acc + length (concat chunks) \<le> cap"
    and "mn \<le> length acc + length (concat chunks)"
  shows "\<exists>pre post. chunks = pre @ post
           \<and> ReadAtLeast_loop cap mn acc \<lparr>rd = map (\<lambda>b. (b, None)) chunks @ rest, wr = w\<rparr>
               = (acc @ concat pre, None, \<lparr>rd = map (\<lambda>b. (b, None)) post @ rest, wr = w\<rparr>)
           \<and> mn \<le> length (acc @ concat pre)"
  using assms
proof (induction chunks arbitrary: acc)
  case Nil
  then have "ReadAtLeast_loop cap mn acc \<lparr>rd = rest, wr = w\<rparr> = (acc, None, \<lparr>rd = rest, wr = w\<rparr>)"
    by (subst ReadAtLeast_loop.simps) simp
  with Nil show ?case by simp
next
  case (Cons x xs)
  show ?case
  proof (cases "mn \<le> length acc")
    case True
    then have "ReadAtLeast_loop cap mn acc \<lparr>rd = map (\<lambda>b. (b, None)) (x # xs) @ rest, wr = w\<rparr>
                 = (acc, None, \<lparr>rd = map (\<lambda>b. (b, None)) (x # xs) @ rest, wr = w\<rparr>)"
      by (subst ReadAtLeast_loop.simps) simp
    with True show ?thesis by (intro exI [of _ "[]"] exI [of _ "x # xs"]) simp
  next
    case False
    from Cons.prems have fits: "length x \<le> cap - length acc" by simp
    have rd: "Read (cap - length acc) \<lparr>rd = map (\<lambda>b. (b, None)) (x # xs) @ rest, wr = w\<rparr>
                = ((x, None), \<lparr>rd = map (\<lambda>b. (b, None)) xs @ rest, wr = w\<rparr>)"
      using fits by (simp add: Read_def)
    from Cons.prems have p: "length (acc @ x) + length (concat xs) \<le> cap"
      "mn \<le> length (acc @ x) + length (concat xs)" by simp_all
    from Cons.IH [OF Cons.prems(1) p] obtain pre post where
      ih: "xs = pre @ post"
          "ReadAtLeast_loop cap mn (acc @ x) \<lparr>rd = map (\<lambda>b. (b, None)) xs @ rest, wr = w\<rparr>
             = ((acc @ x) @ concat pre, None, \<lparr>rd = map (\<lambda>b. (b, None)) post @ rest, wr = w\<rparr>)"
          "mn \<le> length ((acc @ x) @ concat pre)"
      by blast
    have "ReadAtLeast_loop cap mn acc \<lparr>rd = map (\<lambda>b. (b, None)) (x # xs) @ rest, wr = w\<rparr>
            = ReadAtLeast_loop cap mn (acc @ x) \<lparr>rd = map (\<lambda>b. (b, None)) xs @ rest, wr = w\<rparr>"
      using False Cons.prems(1) rd by (subst ReadAtLeast_loop.simps) simp
    with ih show ?thesis
      by (intro exI [of _ "x # pre"] exI [of _ post]) simp
  qed
qed

lemma ReadAtLeast_chunks:
  assumes "mn \<le> cap" "length (concat chunks) \<le> cap" "mn \<le> length (concat chunks)"
  shows "\<exists>pre post. chunks = pre @ post
           \<and> ReadAtLeast \<lparr>rd = map (\<lambda>b. (b, None)) chunks @ rest, wr = w\<rparr> cap mn
               = (concat pre, None, \<lparr>rd = map (\<lambda>b. (b, None)) post @ rest, wr = w\<rparr>)
           \<and> mn \<le> length (concat pre)"
proof -
  from ReadAtLeast_loop_chunks [of mn cap "[]" chunks rest w] assms
  obtain pre post where
    "chunks = pre @ post"
    "ReadAtLeast_loop cap mn [] \<lparr>rd = map (\<lambda>b. (b, None)) chunks @ rest, wr = w\<rparr>
       = (concat pre, None, \<lparr>rd = map (\<lambda>b. (b, None)) post @ rest, wr = w\<rparr>)"
    "mn \<le> length (concat pre)"
    by auto
  then show ?thesis
    using assms(1) by (intro exI [of _ pre] exI [of _ post]) (simp add: ReadAtLeast_def)
qed

lemma map_empty_chunks:
  "concat post = [] \<Longrightarrow> map (\<lambda>b. (b, None :: error option)) post = replicate (length post) ([], None)"
  by (induction post) simp_all

lemma ReadFull_chunks:
  "\<exists>j. ReadFull \<lparr>rd = map (\<lambda>b. (b, None)) chunks @ rest, wr = w\<rparr> (length (concat chunks))
         = (concat chunks, None, \<lparr>rd = replicate j ([], None) @ rest, wr = w\<rparr>)"
proof -
  from ReadAtLeast_chunks [of "length (concat chunks)" "length (concat chunks)" chunks rest w]
  obtain pre post where r:
    "chunks = pre @ post"
    "ReadAtLeast \<lparr>rd = map (\<lambda>b. (b, None)) chunks @ rest, wr = w\<rparr>
        (length (concat chunks)) (length (concat chunks))
       = (concat pre, None, \<lparr>rd = map (\<lambda>b. (b, None)) post @ rest, wr = w\<rparr>)"
    "length (concat chunks) \<le> length (concat pre)"
    by auto
  from r(1,3) have e: "concat post = []" by simp
  with r(1) have "concat chunks = concat pre" by simp
  with r(2) map_empty_chunks [OF e] show ?thesis
    by (intro exI [of _ "length post"]) (simp add: ReadFull_def)
qed

lemma ReadAtLeast_loop_None:
  "ReadAtLeast_loop cap mn acc c = (got, None, c') \<Longrightarrow> mn \<le> cap \<Longrightarrow> mn \<le> length got"
proof (induction cap mn acc c rule: ReadAtLeast_loop.induct)
  case (1 cap mn acc c)
  show ?case
  proof (cases "length acc < mn \<and> length acc < cap")
    case False
    with "1.prems" show ?thesis
      by (simp add: ReadAtLeast_loop.simps [of cap mn acc c])
  next
    case True
    obtain bs e c1 where r: "Read (cap - length acc) c = ((bs, e), c1)"
      by (metis prod.exhaust)
    show ?thesis
    proof (cases e)
      case None
      with True r "1.prems" have "ReadAtLeast_loop cap mn (acc @ bs) c1 = (got, None, c')"
        by (simp add: ReadAtLeast_loop.simps [of cap mn acc c])
      with "1.IH" [OF True r [symmetric] refl None] "1.prems"(2) show ?thesis by simp
    next
      case (Some x)
      with True r "1.prems" show ?thesis
        by (simp add: ReadAtLeast_loop.simps [of cap mn acc c])
    qed
  qed
qed

lemma ReadAtLeast_None:
  "ReadAtLeast c cap mn = (got, None, c') \<Longrightarrow> mn \<le> length got"
  by (auto simp: ReadAtLeast_def split: if_splits prod.splits dest: ReadAtLeast_loop_None)

lemma fill_nth: "i < length got \<Longrightarrow> fill cap got ! i = got ! i"
  by (simp add: fill_def nth_append)

lemma prefix_nth: "i < length xs \<Longrightarrow> xs @ ys = zs \<Longrightarrow> xs ! i = zs ! i"
  by (auto simp: nth_append)

lemma handShake_message:
  assumes m: "concat chunks = socksVer5 # nm # methods" and l: "length methods = unat nm"
  shows "\<exists>j. handShake \<lparr>rd = map (\<lambda>b. (b, None)) chunks @ rest, wr = w\<rparr>
           = (fst (Write [socksVer5, 0] \<lparr>rd = [], wr = w\<rparr>),
              [EvWrite Client [socksVer5, 0] (fst (Write [socksVer5, 0] \<lparr>rd = [], wr = w\<rparr>))],
              \<lparr>rd = replicate j ([], None) @ rest, wr = tl w\<rparr>)"
proof -
  have u: "unat nm < 256" using unsigned_less [of nm, where ?'a = nat] by simp
  have len: "length (concat chunks) = unat nm + 2" using m l by simp
  from ReadAtLeast_chunks [of "1 + 1" 258 chunks rest w] len u
  obtain pre post where r:
    "chunks = pre @ post"
    "ReadAtLeast \<lparr>rd = map (\<lambda>b. (b, None)) chunks @ rest, wr = w\<rparr> 258 (1 + 1)
       = (concat pre, None, \<lparr>rd = map (\<lambda>b. (b, None)) post @ rest, wr = w\<rparr>)"
    "2 \<le> length (concat pre)"
    by auto
  from r(1) m have cc: "concat pre @ concat post = socksVer5 # nm # methods" by simp
  have p0: "0 < length (concat pre)" and p1: "1 < length (concat pre)"
    using r(3) by arith+
  have b0: "fill 258 (concat pre) ! 0 = socksVer5"
    using prefix_nth [OF p0 cc] fill_nth [OF p0, of 258] by simp
  have b1: "fill 258 (concat pre) ! 1 = nm"
    using prefix_nth [OF p1 cc] fill_nth [OF p1, of 258] by simp
  have lp: "length (concat pre) + length (concat post) = unat nm + 2"
    using cc l by (metis length_append length_Cons add_2_eq_Suc')
  have wr: "\<And>R. Write [socksVer5, 0] \<lparr>rd = R, wr = w\<rparr>
              = ((case w of [] \<Rightarrow> None | e # r \<Rightarrow> e), \<lparr>rd = R, wr = tl w\<rparr>)"
    by (simp add: Write_def split: list.splits)
  show ?thesis
  proof (cases "length (concat pre) = unat nm + 2")
    case True
    with lp have "concat post = []" by simp
    from map_empty_chunks [OF this] True r(2) b0 b1 show ?thesis
      by (intro exI [of _ "length post"]) (simp add: handShake_def wr)
  next
    case False
    with lp have lt: "length (concat pre) < unat nm + 2"
      and k: "unat nm + 2 - length (concat pre) = length (concat post)" by simp_all
    from ReadFull_chunks [of post rest w] obtain j where
      "ReadFull \<lparr>rd = map (\<lambda>b. (b, None)) post @ rest, wr = w\<rparr> (length (concat post))
         = (concat post, None, \<lparr>rd = replicate j ([], None) @ rest, wr = w\<rparr>)" by blast
    with False lt k r(2) b0 b1 show ?thesis
      by (intro exI [of _ j]) (simp add: handShake_def wr)
  qed
qed

section \<open>The handshake\<close>

text \<open>
  C3. A handshake message with first byte 5 and method count \<open>nm\<close> (any byte, so 0 to
  255) followed by \<open>nm\<close> method bytes, arriving in any chunks: \<open>handShake\<close> consumes
  exactly these \<open>nm + 2\<close> bytes (what follows them in the stream, \<open>rest\<close>, is left
  untouched; only empty chunks of the message may remain in front of it) and its only
  write is \<open>{5, 0}\<close>, whatever the method bytes are; the error it returns is the one
  of that write. When the first read yields more than \<open>nm + 2\<close> bytes, it fails with
  \<open>errAuthExtraData\<close> and writes nothing. When the first byte is not 5, it fails with
  \<open>errVer\<close> and writes nothing.
\<close>

theorem handShake_negotiation:
  "(concat chunks = socksVer5 # nm # methods \<and> length methods = unat nm \<longrightarrow>
      (\<exists>j. handShake \<lparr>rd = map (\<lambda>b. (b, None)) chunks @ rest, wr = w\<rparr>
         = (fst (Write [socksVer5, 0] \<lparr>rd = [], wr = w\<rparr>),
            [EvWrite Client [socksVer5, 0] (fst (Write [socksVer5, 0] \<lparr>rd = [], wr = w\<rparr>))],
            \<lparr>rd = replicate j ([], None) @ rest, wr = tl w\<rparr>)))
   \<and> (ReadAtLeast c 258 2 = (got, None, c') \<and> got ! 0 = socksVer5
        \<and> unat (got ! 1) + 2 < length got \<longrightarrow>
      handShake c = (Some errAuthExtraData, [], c'))
   \<and> (ReadAtLeast c 258 2 = (got, None, c') \<and> got ! 0 \<noteq> socksVer5 \<longrightarrow>
      handShake c = (Some errVer, [], c'))"
proof (intro conjI impI)
  assume "concat chunks = socksVer5 # nm # methods \<and> length methods = unat nm"
  then show "\<exists>j. handShake \<lparr>rd = map (\<lambda>b. (b, None)) chunks @ rest, wr = w\<rparr>
         = (fst (Write [socksVer5, 0] \<lparr>rd = [], wr = w\<rparr>),
            [EvWrite Client [socksVer5, 0] (fst (Write [socksVer5, 0] \<lparr>rd = [], wr = w\<rparr>))],
            \<lparr>rd = replicate j ([], None) @ rest, wr = tl w\<rparr>)"
    using handShake_message [of chunks nm methods rest w] by blast
next
  assume a: "ReadAtLeast c 258 2 = (got, None, c') \<and> got ! 0 = socksVer5
        \<and> unat (got ! 1) + 2 < length got"
  then have r: "ReadAtLeast c 258 (1 + 1) = (got, None, c')" by (simp add: numeral_2_eq_2)
  from a have "0 < length got" "1 < length got" by arith+
  then have "fill 258 got ! 0 = got ! 0" "fill 258 got ! 1 = got ! 1"
    by (simp_all add: fill_nth)
  with a r show "handShake c = (Some errAuthExtraData, [], c')"
    by (simp add: handShake_def)
next
  assume a: "ReadAtLeast c 258 2 = (got, None, c') \<and> got ! 0 \<noteq> socksVer5"
  then have r: "ReadAtLeast c 258 (1 + 1) = (got, None, c')" by (simp add: numeral_2_eq_2)
  from a ReadAtLeast_None [of c 258 2 got c'] have "2 \<le> length got" by simp
  then have "0 < length got" by arith
  then have "fill 258 got ! 0 = got ! 0" by (simp add: fill_nth)
  with a r show "handShake c = (Some errVer, [], c')"
    by (simp add: handShake_def)
qed

theorem handShake_negotiation_witness:
  "concat [[5, 2], [], [0], [1]] = socksVer5 # 2 # [0, 1]
   \<and> length [0, 1 :: byte] = unat (2 :: byte)
   \<and> handShake \<lparr>rd = [([5, 2], None), ([], None), ([0], None), ([1], None), ([5, 1, 0, 1], None)],
                 wr = []\<rparr>
       = (None, [EvWrite Client [5, 0] None], \<lparr>rd = [([5, 1, 0, 1], None)], wr = []\<rparr>)
   \<and> ReadAtLeast \<lparr>rd = [([5, 1, 0, 7], None)], wr = []\<rparr> 258 2
       = ([5, 1, 0, 7], None, \<lparr>rd = [], wr = []\<rparr>)
   \<and> unat ([5, 1, 0, 7 :: byte] ! 1) + 2 < length [5, 1, 0, 7 :: byte]
   \<and> handShake \<lparr>rd = [([5, 1, 0, 7], None)], wr = []\<rparr>
       = (Some errAuthExtraData, [], \<lparr>rd = [], wr = []\<rparr>)
   \<and> ReadAtLeast \<lparr>rd = [([4, 1, 0], None)], wr = []\<rparr> 258 2
       = ([4, 1, 0], None, \<lparr>rd = [], wr = []\<rparr>)
   \<and> [4, 1, 0 :: byte] ! 0 \<noteq> socksVer5
   \<and> handShake \<lparr>rd = [([4, 1, 0], None)], wr = []\<rparr> = (Some errVer, [], \<lparr>rd = [], wr = []\<rparr>)"
  using handShake_negotiation
          [where chunks = "[[5, 2], [], [0], [1]]" and nm = 2 and methods = "[0, 1]"
             and rest = "[([5, 1, 0, 1], None)]" and w = "[]"
             and c = "\<lparr>rd = [([5, 1, 0, 7], None)], wr = []\<rparr>" and got = "[5, 1, 0, 7]"
             and c' = "\<lparr>rd = [], wr = []\<rparr>"]
        handShake_negotiation
          [where c = "\<lparr>rd = [([4, 1, 0], None)], wr = []\<rparr>" and got = "[4, 1, 0]"
             and c' = "\<lparr>rd = [], wr = []\<rparr>"]
  by (simp add: handShake_def ReadAtLeast_def ReadAtLeast_loop.simps Read_def Write_def fill_def
        socksVer5_def ReadFull_def)

lemma ReadAtLeast_one_chunk:
  assumes "mn \<le> length x" "length x \<le> cap" "0 < mn"
  shows "ReadAtLeast \<lparr>rd = (x, None) # rest, wr = w\<rparr> cap mn = (x, None, \<lparr>rd = rest, wr = w\<rparr>)"
proof -
  have "ReadAtLeast_loop cap mn [] \<lparr>rd = (x, None) # rest, wr = w\<rparr>
          = ReadAtLeast_loop cap mn x \<lparr>rd = rest, wr = w\<rparr>"
    using assms by (subst ReadAtLeast_loop.simps) (simp add: Read_def)
  also have "\<dots> = (x, None, \<lparr>rd = rest, wr = w\<rparr>)"
    using assms by (subst ReadAtLeast_loop.simps) simp
  finally show ?thesis using assms by (simp add: ReadAtLeast_def)
qed

lemma reqLen_fill: "5 \<le> length got \<Longrightarrow> reqLen (fill cap got) = reqLen got"
  by (simp add: reqLen_def fill_nth)

lemma reqLen_values:
  "(buf ! 3 = 1 \<longrightarrow> reqLen buf = Some 10)
   \<and> (buf ! 3 = 4 \<longrightarrow> reqLen buf = Some 22)
   \<and> (buf ! 3 = 3 \<longrightarrow> reqLen buf = Some (7 + unat (buf ! 4)))"
  by (simp add: reqLen_def lenIPv4_def lenIPv6_def lenDmBase_def)

section \<open>The request\<close>

lemma spec_request_length:
  "spec_well_formed a \<Longrightarrow>
     reqLen (spec_connect_request a p) = Some (length (spec_connect_request a p))"
  by (cases a)
     (auto simp: spec_well_formed_def spec_connect_request_def spec_raw_address_def spec_port_def
        reqLen_def lenIPv4_def lenIPv6_def lenDmBase_def unat_of_nat)

lemma spec_request_bounds:
  "spec_well_formed a \<Longrightarrow>
     7 \<le> length (spec_connect_request a p) \<and> length (spec_connect_request a p) \<le> 262"
  by (cases a)
     (auto simp: spec_well_formed_def spec_connect_request_def spec_raw_address_def spec_port_def)

lemma spec_request_head:
  "spec_connect_request a p ! 0 = socksVer5 \<and> spec_connect_request a p ! 1 = socksCmdConnect"
  by (simp add: spec_connect_request_def socksVer5_def socksCmdConnect_def)

lemma reqLen_prefix:
  assumes "5 \<le> length xs" "xs @ ys = zs"
  shows "reqLen xs = reqLen zs"
proof -
  have "3 < length xs" "4 < length xs" using assms(1) by arith+
  from prefix_nth [OF this(1) assms(2)] prefix_nth [OF this(2) assms(2)]
  show ?thesis by (simp add: reqLen_def)
qed

lemma slice_fill_raw:
  assumes "3 \<le> length req" "length req \<le> cap"
  shows "go_slice (fill cap req) 3 (length req) = Ret (drop 3 req)"
  using assms by (simp add: go_slice_def fill_def)

lemma unat_dm_bound:
  "n \<le> 250 \<Longrightarrow> unat ((5 :: byte) + of_nat n) = 5 + n"
  by (simp add: unat_word_ariths unat_of_nat)

lemma debug_host_returns:
  assumes wf: "spec_well_formed a" and nd: "\<And>d. a = DomainName d \<Longrightarrow> length d \<le> 250"
  shows "\<exists>h. debug_host ipString (fill 263 (spec_connect_request a p))
               (length (spec_connect_request a p)) = Ret h"
proof (cases a)
  case (IPv4 ip)
  with wf show ?thesis
    by (simp add: debug_host_def fill_def go_slice_def spec_well_formed_def spec_connect_request_def
          spec_raw_address_def spec_port_def)
next
  case (IPv6 ip)
  with wf show ?thesis
    by (simp add: debug_host_def fill_def go_slice_def spec_well_formed_def spec_connect_request_def
          spec_raw_address_def spec_port_def)
next
  case (DomainName d)
  with nd have "length d \<le> 250" by simp
  with DomainName unat_dm_bound [of "length d"] show ?thesis
    by (simp add: debug_host_def fill_def go_slice_def spec_connect_request_def
          spec_raw_address_def spec_port_def)
qed

lemma request_result_returns:
  assumes wf: "spec_well_formed a"
    and nd: "debug s \<Longrightarrow> (\<And>d. a = DomainName d \<Longrightarrow> length d \<le> 250)"
  shows "\<exists>host. request_result ipString s (fill 263 (spec_connect_request a p))
                  (length (spec_connect_request a p)) c
               = Ret (spec_raw_address a p, host, None, c)"
proof -
  from spec_request_bounds [OF wf, of p]
  have b: "3 \<le> length (spec_connect_request a p)" "length (spec_connect_request a p) \<le> 263"
    by arith+
  have raw: "go_slice (fill 263 (spec_connect_request a p)) 3 (length (spec_connect_request a p))
               = Ret (spec_raw_address a p)"
    using slice_fill_raw [OF b] by (simp add: spec_connect_request_def)
  show ?thesis
  proof (cases "debug s")
    case False
    with raw show ?thesis by (simp add: request_result_def)
  next
    case True
    from debug_host_returns [OF wf nd [OF True], of ipString p] obtain h where
      "debug_host ipString (fill 263 (spec_connect_request a p))
         (length (spec_connect_request a p)) = Ret h" by blast
    with True raw show ?thesis by (simp add: request_result_def)
  qed
qed

lemma getRequest_parses:
  assumes wf: "spec_well_formed a"
    and m: "concat chunks = spec_connect_request a p"
    and nd: "debug s \<Longrightarrow> (\<And>d. a = DomainName d \<Longrightarrow> length d \<le> 250)"
  shows "\<exists>j host. getRequest ipString s \<lparr>rd = map (\<lambda>b. (b, None)) chunks @ rest, wr = w\<rparr>
           = Ret (spec_raw_address a p, host, None, \<lparr>rd = replicate j ([], None) @ rest, wr = w\<rparr>)"
proof -
  let ?req = "spec_connect_request a p"
  from spec_request_bounds [OF wf, of p] have b: "5 \<le> length ?req" "length ?req \<le> 263"
    by arith+
  from ReadAtLeast_chunks [of "4 + 1" 263 chunks rest w] b m
  obtain pre post where r:
    "chunks = pre @ post"
    "ReadAtLeast \<lparr>rd = map (\<lambda>b. (b, None)) chunks @ rest, wr = w\<rparr> 263 (4 + 1)
       = (concat pre, None, \<lparr>rd = map (\<lambda>b. (b, None)) post @ rest, wr = w\<rparr>)"
    "5 \<le> length (concat pre)"
    by auto
  from r(1) m have cc: "concat pre @ concat post = ?req" by simp
  have p0: "0 < length (concat pre)" and p1: "1 < length (concat pre)"
    using r(3) by arith+
  have b0: "fill 263 (concat pre) ! 0 = socksVer5"
    using prefix_nth [OF p0 cc] fill_nth [OF p0, of 263] spec_request_head [of a p] by simp
  have b1: "fill 263 (concat pre) ! 1 = socksCmdConnect"
    using prefix_nth [OF p1 cc] fill_nth [OF p1, of 263] spec_request_head [of a p] by simp
  have rl: "reqLen (fill 263 (concat pre)) = Some (length ?req)"
    using reqLen_fill [OF r(3), of 263] reqLen_prefix [OF r(3) cc] spec_request_length [OF wf, of p]
    by simp
  have lp: "length (concat pre) + length (concat post) = length ?req"
    using cc by (metis length_append)
  show ?thesis
  proof (cases "length (concat pre) = length ?req")
    case True
    with lp have e: "concat post = []" by simp
    with cc have g: "concat pre = ?req" by simp
    from request_result_returns [OF wf nd, where ipString = ipString and p = p
        and c = "\<lparr>rd = replicate (length post) ([], None) @ rest, wr = w\<rparr>"]
    obtain host where
      "request_result ipString s (fill 263 ?req) (length ?req)
         \<lparr>rd = replicate (length post) ([], None) @ rest, wr = w\<rparr>
       = Ret (spec_raw_address a p, host, None,
              \<lparr>rd = replicate (length post) ([], None) @ rest, wr = w\<rparr>)"
      by blast
    with map_empty_chunks [OF e] True r(2) b0 b1 rl g show ?thesis
      by (intro exI [of _ "length post"] exI [of _ host]) (simp add: getRequest_def)
  next
    case False
    with lp have lt: "length (concat pre) < length ?req"
      and k: "length ?req - length (concat pre) = length (concat post)" by simp_all
    from ReadFull_chunks [of post rest w] obtain j where
      rf: "ReadFull \<lparr>rd = map (\<lambda>b. (b, None)) post @ rest, wr = w\<rparr> (length (concat post))
         = (concat post, None, \<lparr>rd = replicate j ([], None) @ rest, wr = w\<rparr>)" by blast
    from request_result_returns [OF wf nd, where ipString = ipString and p = p
        and c = "\<lparr>rd = replicate j ([], None) @ rest, wr = w\<rparr>"]
    obtain host where
      "request_result ipString s (fill 263 ?req) (length ?req)
         \<lparr>rd = replicate j ([], None) @ rest, wr = w\<rparr>
       = Ret (spec_raw_address a p, host, None, \<lparr>rd = replicate j ([], None) @ rest, wr = w\<rparr>)"
      by blast
    with False lt k rf r(2) b0 b1 rl cc show ?thesis
      by (intro exI [of _ j] exI [of _ host]) (simp add: getRequest_def)
  qed
qed

lemma Read_length: "Read k c = ((bs, e), c') \<Longrightarrow> length bs \<le> k"
  by (auto simp: Read_def split: list.splits prod.splits if_splits)

lemma ReadAtLeast_loop_length:
  "ReadAtLeast_loop cap mn acc c = (got, e, c') \<Longrightarrow> length acc \<le> cap \<Longrightarrow> length got \<le> cap"
proof (induction cap mn acc c rule: ReadAtLeast_loop.induct)
  case (1 cap mn acc c)
  show ?case
  proof (cases "length acc < mn \<and> length acc < cap")
    case False
    with "1.prems" show ?thesis
      by (simp add: ReadAtLeast_loop.simps [of cap mn acc c])
  next
    case True
    obtain bs x cn where r: "Read (cap - length acc) c = ((bs, x), cn)"
      by (metis prod.exhaust)
    from Read_length [OF r] "1.prems"(2) have l: "length (acc @ bs) \<le> cap" by simp
    show ?thesis
    proof (cases x)
      case None
      with True r "1.prems" have "ReadAtLeast_loop cap mn (acc @ bs) cn = (got, e, c')"
        by (simp add: ReadAtLeast_loop.simps [of cap mn acc c])
      with "1.IH" [OF True r [symmetric] refl None] l show ?thesis by simp
    next
      case (Some y)
      with True r "1.prems" l show ?thesis
        by (auto simp: ReadAtLeast_loop.simps [of cap mn acc c])
    qed
  qed
qed

lemma ReadFull_None_length:
  assumes "ReadFull c k = (topup, None, c')"
  shows "length topup = k"
proof -
  from assms have a: "ReadAtLeast c k k = (topup, None, c')" by (simp add: ReadFull_def)
  from ReadAtLeast_None [OF a] have ge: "k \<le> length topup" .
  obtain g e cn where l: "ReadAtLeast_loop k k [] c = (g, e, cn)" by (metis prod.exhaust)
  from ReadAtLeast_loop_length [OF l] have "length g \<le> k" by simp
  moreover from a l have "topup = g" by (auto simp: ReadAtLeast_def split: if_splits)
  ultimately show ?thesis using ge by simp
qed

lemma reqLen_bounds: "reqLen got = Some rl \<Longrightarrow> 7 \<le> rl \<and> rl \<le> 262"
proof -
  assume a: "reqLen got = Some rl"
  have "unat (got ! 4) < 256" using unsigned_less [of "got ! 4", where ?'a = nat] by simp
  with a show ?thesis
    by (auto simp: reqLen_def lenIPv4_def lenIPv6_def lenDmBase_def split: if_splits)
qed

lemma request_result_exact:
  assumes "length req = rl" "3 \<le> rl" "rl \<le> 263"
  shows "request_result ipString s (fill 263 req) rl c
           = (if debug s then
                (case debug_host ipString (fill 263 req) rl of
                   Panic \<Rightarrow> Panic
                 | Ret host \<Rightarrow> Ret (drop 3 req, host, None, c))
              else Ret (drop 3 req, [], None, c))"
  using slice_fill_raw [of req 263] assms by (simp add: request_result_def)

lemma getRequest_head:
  assumes r: "ReadAtLeast c 263 5 = (got, None, c')"
    and h: "got ! 0 = socksVer5" "got ! 1 = socksCmdConnect" "reqLen got = Some rl"
  shows "getRequest ipString s c =
           (if length got = rl then request_result ipString s (fill 263 got) rl c'
            else if length got < rl then
              (case ReadFull c' (rl - length got) of
                 (topup, Some e, cr) \<Rightarrow> Ret ([], [], Some e, cr)
               | (topup, None, cr) \<Rightarrow> request_result ipString s (fill 263 (got @ topup)) rl cr)
            else Ret ([], [], Some errReqExtraData, c'))"
proof -
  from ReadAtLeast_None [OF r] have l: "5 \<le> length got" .
  then have "0 < length got" "1 < length got" by arith+
  then have "fill 263 got ! 0 = got ! 0" "fill 263 got ! 1 = got ! 1"
    by (simp_all add: fill_nth)
  with r h reqLen_fill [OF l, of 263] show ?thesis
    by (simp add: getRequest_def)
qed

lemma getRequest_split_example:
  "ReadAtLeast \<lparr>rd = [([5, 1, 0, 1, 192], None), ([168, 1, 1, 31, 144], None), ([9], None)], wr = []\<rparr> 263 5
     = ([5, 1, 0, 1, 192], None, \<lparr>rd = [([168, 1, 1, 31, 144], None), ([9], None)], wr = []\<rparr>)
   \<and> ReadFull \<lparr>rd = [([168, 1, 1, 31, 144], None), ([9], None)], wr = []\<rparr> 5
       = ([168, 1, 1, 31, 144], None, \<lparr>rd = [([9], None)], wr = []\<rparr>)
   \<and> ReadAtLeast \<lparr>rd = [([5, 1, 0, 1, 192], None), ([168], Some (OpError True))], wr = []\<rparr> 263 5
       = ([5, 1, 0, 1, 192], None, \<lparr>rd = [([168], Some (OpError True))], wr = []\<rparr>)
   \<and> ReadFull \<lparr>rd = [([168], Some (OpError True))], wr = []\<rparr> 5
       = ([168], Some (OpError True), \<lparr>rd = [], wr = []\<rparr>)"
  by (simp add: ReadAtLeast_def ReadFull_def ReadAtLeast_loop.simps Read_def)

text \<open>
  C4. The expected length of a request is 10 for an IPv4 address, 22 for an IPv6
  address and 7 plus the length byte for a domain name, and on every well-formed
  request as laid out on the wire it is the length of that request. \<open>getRequest\<close>
  acts on this length. A CONNECT request of version 5 whose first read returned more
  bytes than the expected length fails with \<open>errReqExtraData\<close>, and no raw address
  is returned. When the first read returned exactly the expected length, the raw
  address is everything read from the address type on, and nothing more is read.
  When it returned less, \<open>getRequest\<close> reads exactly the missing bytes: if that read
  succeeds the raw address is what the two reads returned from the address type on,
  and if it fails \<open>getRequest\<close> returns its error. So a well-formed request that
  arrives in any chunks is consumed exactly, whatever follows it in the stream is
  left untouched, and its raw address is returned (the host string for the log is
  built only when \<open>debug\<close> is on, and this holds when that block does not panic).
\<close>

theorem getRequest_expected_length:
  "(buf ! 3 = 1 \<longrightarrow> reqLen buf = Some 10)
   \<and> (buf ! 3 = 4 \<longrightarrow> reqLen buf = Some 22)
   \<and> (buf ! 3 = 3 \<longrightarrow> reqLen buf = Some (7 + unat (buf ! 4)))
   \<and> (spec_well_formed a \<longrightarrow>
        reqLen (spec_connect_request a p) = Some (length (spec_connect_request a p)))
   \<and> (ReadAtLeast c 263 5 = (got, None, c') \<and> got ! 0 = socksVer5 \<and> got ! 1 = socksCmdConnect
        \<and> reqLen got = Some rl \<and> rl < length got \<longrightarrow>
      getRequest ipString s c = Ret ([], [], Some errReqExtraData, c'))
   \<and> (ReadAtLeast c 263 5 = (got, None, c') \<and> got ! 0 = socksVer5 \<and> got ! 1 = socksCmdConnect
        \<and> reqLen got = Some rl \<and> length got = rl \<longrightarrow>
      getRequest ipString s c
        = (if debug s then
             (case debug_host ipString (fill 263 got) rl of
                Panic \<Rightarrow> Panic
              | Ret host \<Rightarrow> Ret (drop 3 got, host, None, c'))
           else Ret (drop 3 got, [], None, c')))
   \<and> (ReadAtLeast c 263 5 = (got, None, c') \<and> got ! 0 = socksVer5 \<and> got ! 1 = socksCmdConnect
        \<and> reqLen got = Some rl \<and> length got < rl
        \<and> ReadFull c' (rl - length got) = (topup, None, cr) \<longrightarrow>
      length (got @ topup) = rl
      \<and> getRequest ipString s c
        = (if debug s then
             (case debug_host ipString (fill 263 (got @ topup)) rl of
                Panic \<Rightarrow> Panic
              | Ret host \<Rightarrow> Ret (drop 3 (got @ topup), host, None, cr))
           else Ret (drop 3 (got @ topup), [], None, cr)))
   \<and> (ReadAtLeast c 263 5 = (got, None, c') \<and> got ! 0 = socksVer5 \<and> got ! 1 = socksCmdConnect
        \<and> reqLen got = Some rl \<and> length got < rl
        \<and> ReadFull c' (rl - length got) = (topup, Some e, cr) \<longrightarrow>
      getRequest ipString s c = Ret ([], [], Some e, cr))
   \<and> (spec_well_formed a \<and> concat chunks = spec_connect_request a p
        \<and> (debug s \<longrightarrow> (\<forall>d. a = DomainName d \<longrightarrow> length d \<le> 250)) \<longrightarrow>
      (\<exists>j host. getRequest ipString s \<lparr>rd = map (\<lambda>b. (b, None)) chunks @ rest, wr = w\<rparr>
         = Ret (spec_raw_address a p, host, None, \<lparr>rd = replicate j ([], None) @ rest, wr = w\<rparr>)))"
proof -
  have over: "getRequest ipString s c = Ret ([], [], Some errReqExtraData, c')"
    if "ReadAtLeast c 263 5 = (got, None, c')" "got ! 0 = socksVer5" "got ! 1 = socksCmdConnect"
      "reqLen got = Some rl" "rl < length got"
    using getRequest_head [OF that(1-4), of ipString s] that(5) by simp
  have exact: "getRequest ipString s c
        = (if debug s then
             (case debug_host ipString (fill 263 got) rl of
                Panic \<Rightarrow> Panic
              | Ret host \<Rightarrow> Ret (drop 3 got, host, None, c'))
           else Ret (drop 3 got, [], None, c'))"
    if "ReadAtLeast c 263 5 = (got, None, c')" "got ! 0 = socksVer5" "got ! 1 = socksCmdConnect"
      "reqLen got = Some rl" "length got = rl"
  proof -
    from reqLen_bounds [OF that(4)] have b: "3 \<le> rl" "rl \<le> 263" by arith+
    from getRequest_head [OF that(1-4), of ipString s] that(5)
    have "getRequest ipString s c = request_result ipString s (fill 263 got) rl c'" by simp
    with request_result_exact [OF that(5) b, of ipString s c'] show ?thesis by simp
  qed
  have short: "length (got @ topup) = rl
      \<and> getRequest ipString s c
        = (if debug s then
             (case debug_host ipString (fill 263 (got @ topup)) rl of
                Panic \<Rightarrow> Panic
              | Ret host \<Rightarrow> Ret (drop 3 (got @ topup), host, None, cr))
           else Ret (drop 3 (got @ topup), [], None, cr))"
    if "ReadAtLeast c 263 5 = (got, None, c')" "got ! 0 = socksVer5" "got ! 1 = socksCmdConnect"
      "reqLen got = Some rl" "length got < rl" "ReadFull c' (rl - length got) = (topup, None, cr)"
  proof -
    from reqLen_bounds [OF that(4)] have b: "3 \<le> rl" "rl \<le> 263" by arith+
    from ReadFull_None_length [OF that(6)] that(5) have l: "length (got @ topup) = rl" by simp
    from getRequest_head [OF that(1-4), of ipString s] that(5,6)
    have "getRequest ipString s c = request_result ipString s (fill 263 (got @ topup)) rl cr"
      by simp
    with request_result_exact [OF l b, of ipString s cr] l show ?thesis by simp
  qed
  have fail: "getRequest ipString s c = Ret ([], [], Some e, cr)"
    if "ReadAtLeast c 263 5 = (got, None, c')" "got ! 0 = socksVer5" "got ! 1 = socksCmdConnect"
      "reqLen got = Some rl" "length got < rl" "ReadFull c' (rl - length got) = (topup, Some e, cr)"
    using getRequest_head [OF that(1-4), of ipString s] that(5,6) by simp
  have parse: "\<exists>j host. getRequest ipString s \<lparr>rd = map (\<lambda>b. (b, None)) chunks @ rest, wr = w\<rparr>
         = Ret (spec_raw_address a p, host, None, \<lparr>rd = replicate j ([], None) @ rest, wr = w\<rparr>)"
    if "spec_well_formed a" "concat chunks = spec_connect_request a p"
      "debug s \<longrightarrow> (\<forall>d. a = DomainName d \<longrightarrow> length d \<le> 250)"
    using getRequest_parses [OF that(1,2), of s ipString rest w] that(3) by blast
  show ?thesis
    apply (intro conjI impI)
            apply (simp add: reqLen_values)
           apply (simp add: reqLen_values)
          apply (simp add: reqLen_values)
         apply (erule spec_request_length)
        apply (elim conjE, erule (4) over)
       apply (elim conjE, erule (4) exact)
      apply (elim conjE, rule short [THEN conjunct1], assumption+)
     apply (elim conjE, rule short [THEN conjunct2], assumption+)
    apply (elim conjE, erule (5) fail)
    apply (elim conjE, erule (1) parse, assumption)
    done
qed

theorem getRequest_expected_length_witness:
  "[5, 1, 0, 1, 192, 168, 1, 1, 31, 144 :: byte] ! 3 = 1
   \<and> reqLen [5, 1, 0, 1, 192, 168, 1, 1, 31, 144] = Some 10
   \<and> [5, 1, 0, 4, 0, 0, 0, 0, 0, 0, 0, 0, 0, 0, 0, 0, 0, 0, 0, 1, 0, 80 :: byte] ! 3 = 4
   \<and> reqLen [5, 1, 0, 4, 0, 0, 0, 0, 0, 0, 0, 0, 0, 0, 0, 0, 0, 0, 0, 1, 0, 80] = Some 22
   \<and> [5, 1, 0, 3, 2, 97, 98, 0, 80 :: byte] ! 3 = 3
   \<and> reqLen [5, 1, 0, 3, 2, 97, 98, 0, 80] = Some 9
   \<and> spec_well_formed (DomainName [97, 98])
   \<and> spec_connect_request (DomainName [97, 98]) 80 = [5, 1, 0, 3, 2, 97, 98, 0, 80]
   \<and> reqLen (spec_connect_request (DomainName [97, 98]) 80)
       = Some (length (spec_connect_request (DomainName [97, 98]) 80))
   \<and> ReadAtLeast \<lparr>rd = [([5, 1, 0, 3, 2, 97, 98, 0, 80, 255], None)], wr = []\<rparr> 263 5
       = ([5, 1, 0, 3, 2, 97, 98, 0, 80, 255], None, \<lparr>rd = [], wr = []\<rparr>)
   \<and> reqLen [5, 1, 0, 3, 2, 97, 98, 0, 80, 255] = Some 9
   \<and> 9 < length [5, 1, 0, 3, 2, 97, 98, 0, 80, 255 :: byte]
   \<and> getRequest string_of_bytes (NewService \<lparr>server = ''tunnel:8388''\<rparr>)
         \<lparr>rd = [([5, 1, 0, 3, 2, 97, 98, 0, 80, 255], None)], wr = []\<rparr>
       = Ret ([], [], Some errReqExtraData, \<lparr>rd = [], wr = []\<rparr>)
   \<and> ReadAtLeast \<lparr>rd = [([5, 1, 0, 1, 192, 168, 1, 1, 31, 144], None), ([9], None)], wr = []\<rparr> 263 5
       = ([5, 1, 0, 1, 192, 168, 1, 1, 31, 144], None, \<lparr>rd = [([9], None)], wr = []\<rparr>)
   \<and> length [5, 1, 0, 1, 192, 168, 1, 1, 31, 144 :: byte] = 10
   \<and> debug (NewService \<lparr>server = ''tunnel:8388''\<rparr>)
   \<and> debug_host string_of_bytes (fill 263 [5, 1, 0, 1, 192, 168, 1, 1, 31, 144]) 10
       = Ret (JoinHostPort (string_of_bytes [192, 168, 1, 1]) (Itoa 8080))
   \<and> getRequest string_of_bytes (NewService \<lparr>server = ''tunnel:8388''\<rparr>)
         \<lparr>rd = [([5, 1, 0, 1, 192, 168, 1, 1, 31, 144], None), ([9], None)], wr = []\<rparr>
       = Ret ([1, 192, 168, 1, 1, 31, 144],
              JoinHostPort (string_of_bytes [192, 168, 1, 1]) (Itoa 8080), None,
              \<lparr>rd = [([9], None)], wr = []\<rparr>)
   \<and> ReadAtLeast \<lparr>rd = [([5, 1, 0, 1, 192], None), ([168, 1, 1, 31, 144], None), ([9], None)], wr = []\<rparr> 263 5
       = ([5, 1, 0, 1, 192], None, \<lparr>rd = [([168, 1, 1, 31, 144], None), ([9], None)], wr = []\<rparr>)
   \<and> reqLen [5, 1, 0, 1, 192] = Some 10
   \<and> ReadFull \<lparr>rd = [([168, 1, 1, 31, 144], None), ([9], None)], wr = []\<rparr> 5
       = ([168, 1, 1, 31, 144], None, \<lparr>rd = [([9], None)], wr = []\<rparr>)
   \<and> getRequest string_of_bytes (NewService \<lparr>server = ''tunnel:8388''\<rparr>)
         \<lparr>rd = [([5, 1, 0, 1, 192], None), ([168, 1, 1, 31, 144], None), ([9], None)], wr = []\<rparr>
       = Ret ([1, 192, 168, 1, 1, 31, 144],
              JoinHostPort (string_of_bytes [192, 168, 1, 1]) (Itoa 8080), None,
              \<lparr>rd = [([9], None)], wr = []\<rparr>)
   \<and> ReadAtLeast \<lparr>rd = [([5, 1, 0, 1, 192], None), ([168], Some (OpError True))], wr = []\<rparr> 263 5
       = ([5, 1, 0, 1, 192], None, \<lparr>rd = [([168], Some (OpError True))], wr = []\<rparr>)
   \<and> ReadFull \<lparr>rd = [([168], Some (OpError True))], wr = []\<rparr> 5
       = ([168], Some (OpError True), \<lparr>rd = [], wr = []\<rparr>)
   \<and> getRequest string_of_bytes (NewService \<lparr>server = ''tunnel:8388''\<rparr>)
         \<lparr>rd = [([5, 1, 0, 1, 192], None), ([168], Some (OpError True))], wr = []\<rparr>
       = Ret ([], [], Some (OpError True), \<lparr>rd = [], wr = []\<rparr>)
   \<and> concat [[5, 1, 0], [3, 2, 97], [], [98, 0, 80]] = spec_connect_request (DomainName [97, 98]) 80
   \<and> (\<exists>j host. getRequest string_of_bytes (NewService \<lparr>server = ''tunnel:8388''\<rparr>)
          \<lparr>rd = [([5, 1, 0], None), ([3, 2, 97], None), ([], None), ([98, 0, 80], None), ([9], None)],
             wr = []\<rparr>
         = Ret ([3, 2, 97, 98, 0, 80], host, None,
                \<lparr>rd = replicate j ([], None) @ [([9], None)], wr = []\<rparr>))"
proof -
  note inst = getRequest_expected_length
      [where ipString = string_of_bytes and s = "NewService \<lparr>server = ''tunnel:8388''\<rparr>"
         and a = "DomainName [97, 98]" and p = 80
         and chunks = "[[5, 1, 0], [3, 2, 97], [], [98, 0, 80]]" and rest = "[([9], None)]"
         and w = "[]"]
  note over = inst
      [where buf = "[5, 1, 0, 1, 192, 168, 1, 1, 31, 144]"
         and c = "\<lparr>rd = [([5, 1, 0, 3, 2, 97, 98, 0, 80, 255], None)], wr = []\<rparr>"
         and got = "[5, 1, 0, 3, 2, 97, 98, 0, 80, 255]" and c' = "\<lparr>rd = [], wr = []\<rparr>"
         and rl = 9]
  note exact = inst
      [where buf = "[5, 1, 0, 4, 0, 0, 0, 0, 0, 0, 0, 0, 0, 0, 0, 0, 0, 0, 0, 1, 0, 80]"
         and c = "\<lparr>rd = [([5, 1, 0, 1, 192, 168, 1, 1, 31, 144], None), ([9], None)], wr = []\<rparr>"
         and got = "[5, 1, 0, 1, 192, 168, 1, 1, 31, 144]" and c' = "\<lparr>rd = [([9], None)], wr = []\<rparr>"
         and rl = 10]
  note short = inst
      [where buf = "[5, 1, 0, 3, 2, 97, 98, 0, 80]"
         and c = "\<lparr>rd = [([5, 1, 0, 1, 192], None), ([168, 1, 1, 31, 144], None), ([9], None)], wr = []\<rparr>"
         and got = "[5, 1, 0, 1, 192]"
         and c' = "\<lparr>rd = [([168, 1, 1, 31, 144], None), ([9], None)], wr = []\<rparr>"
         and rl = 10 and topup = "[168, 1, 1, 31, 144]" and cr = "\<lparr>rd = [([9], None)], wr = []\<rparr>"]
  note fail = inst
      [where buf = "[5, 1, 0, 3, 2, 97, 98, 0, 80]"
         and c = "\<lparr>rd = [([5, 1, 0, 1, 192], None), ([168], Some (OpError True))], wr = []\<rparr>"
         and got = "[5, 1, 0, 1, 192]"
         and c' = "\<lparr>rd = [([168], Some (OpError True))], wr = []\<rparr>"
         and rl = 10 and topup = "[168]" and e = "OpError True" and cr = "\<lparr>rd = [], wr = []\<rparr>"]
  have dh: "debug_host string_of_bytes (fill 263 [5, 1, 0, 1, 192, 168, 1, 1, 31, 144]) 10
       = Ret (JoinHostPort (string_of_bytes [192, 168, 1, 1]) (Itoa 8080))"
    by (simp add: debug_host_def fill_def go_slice_def Uint16_def del: Itoa.simps)
  show ?thesis
    using over exact short fail dh getRequest_split_example
      ReadAtLeast_one_chunk [of 5 "[5, 1, 0, 3, 2, 97, 98, 0, 80, 255]" 263 "[]" "[]"]
      ReadAtLeast_one_chunk [of 5 "[5, 1, 0, 1, 192, 168, 1, 1, 31, 144]" 263 "[([9], None)]" "[]"]
    by (simp add: reqLen_def lenDmBase_def lenIPv4_def lenIPv6_def socksVer5_def socksCmdConnect_def
          spec_well_formed_def spec_connect_request_def spec_raw_address_def spec_port_def
          NewService_def del: Itoa.simps)
qed



lemma handShake_one_method:
  "handShake \<lparr>rd = ([5, 1, 0], None) # rest, wr = []\<rparr>
     = (None, [EvWrite Client [5, 0] None], \<lparr>rd = rest, wr = []\<rparr>)"
  using ReadAtLeast_one_chunk [of "1 + 1" "[5, 1, 0]" 258 rest "[]"]
  by (simp add: handShake_def fill_def socksVer5_def Write_def)




lemma unat_dm_wraps:
  "251 \<le> n \<Longrightarrow> n \<le> 255 \<Longrightarrow> unat ((5 :: byte) + of_nat n) = n - 251"
proof -
  assume a: "251 \<le> n" "n \<le> 255"
  have "unat ((5 :: byte) + of_nat n) = (5 + n) mod 256"
    using a by (simp add: unat_word_ariths unat_of_nat)
  also have "\<dots> = n - 251" using a by (simp add: mod_if)
  finally show ?thesis .
qed


lemma getRequest_long_domain:
  assumes n: "length d = n" "251 \<le> n" "n \<le> 255" and dbg: "debug s"
  shows "getRequest ipString s \<lparr>rd = [([5, 1, 0, 3, of_nat n] @ d @ [ph, pl], None)], wr = w\<rparr>
           = Panic"
proof -
  define x where "x = [5, 1, 0, 3, of_nat n] @ d @ [ph, pl]"
  have l: "length x = n + 7" using n by (simp add: x_def)
  have r: "ReadAtLeast \<lparr>rd = [(x, None)], wr = w\<rparr> 263 (4 + 1) = (x, None, \<lparr>rd = [], wr = w\<rparr>)"
    using ReadAtLeast_one_chunk [of "4 + 1" x 263 "[]" w] n l by simp
  have u: "unat (of_nat n :: byte) = n" using n by (simp add: unat_of_nat)
  have i: "fill 263 x ! 0 = 5" "fill 263 x ! 1 = 1" "fill 263 x ! 3 = 3" "fill 263 x ! 4 = of_nat n"
    by (simp_all add: fill_def x_def)
  have rl: "reqLen (fill 263 x) = Some (n + 7)"
    using u i by (simp add: reqLen_def lenDmBase_def)
  have sl: "go_slice (fill 263 x) 3 (n + 7) = Ret (drop 3 x)"
    using slice_fill_raw [of x 263] n l by simp
  have "go_slice (fill 263 x) 5 (unat ((5 :: byte) + of_nat n)) = Panic"
    using unat_dm_wraps [OF n(2,3)] n by (simp add: go_slice_def)
  then have dh: "debug_host ipString (fill 263 x) (n + 7) = Panic"
    using i by (simp add: debug_host_def)
  have "request_result ipString s (fill 263 x) (n + 7) \<lparr>rd = [], wr = w\<rparr> = Panic"
    using sl dh dbg by (simp add: request_result_def)
  then have "getRequest ipString s \<lparr>rd = [(x, None)], wr = w\<rparr> = Panic"
    using r rl l i by (simp add: getRequest_def socksVer5_def socksCmdConnect_def)
  then show ?thesis by (simp add: x_def)
qed

text \<open>
  C6, at the input where the code fails it. The request for a domain name of 251
  bytes is well formed, and \<open>NewService\<close> turns \<open>debug\<close> on. The expected length and
  the raw address are computed, but the block that builds the host string for the log
  then slices \<open>buf[5 : 5+buf[4]]\<close> with the sum taken in a byte:
  \<open>5 + 251\<close> wraps to 0, the slice bounds are out of order, and \<open>getRequest\<close> panics
  instead of returning the raw address. Lemma \<open>getRequest_parses\<close> above is the round
  trip for every other well-formed request.
\<close>

theorem getRequest_long_domain_panics:
  "spec_well_formed (DomainName (replicate 251 97))
   \<and> spec_connect_request (DomainName (replicate 251 97)) 80
       = [5, 1, 0, 3, 251] @ replicate 251 97 @ [0, 80]
   \<and> debug (NewService \<lparr>server = ''tunnel:8388''\<rparr>)
   \<and> getRequest string_of_bytes (NewService \<lparr>server = ''tunnel:8388''\<rparr>)
         \<lparr>rd = [([5, 1, 0, 3, 251] @ replicate 251 97 @ [0, 80], None)], wr = []\<rparr>
       = Panic"
proof -
  have "getRequest string_of_bytes (NewService \<lparr>server = ''tunnel:8388''\<rparr>)
         \<lparr>rd = [([5, 1, 0, 3, of_nat 251] @ replicate 251 97 @ [0, 80], None)], wr = []\<rparr>
       = Panic"
    by (rule getRequest_long_domain) (simp_all add: NewService_def)
  then show ?thesis
    by (simp add: spec_well_formed_def spec_connect_request_def spec_raw_address_def spec_port_def
          NewService_def)
qed

section \<open>The handler and its two relays\<close>

lemma handShake_ok_events:
  "handShake c = (None, ev, c') \<Longrightarrow> ev = [EvWrite Client [socksVer5, 0] None]"
  by (auto simp: handShake_def Let_def split: prod.splits option.splits if_splits)

lemma Println_no_close: "EvClose p \<notin> set (Println s msg e)"
  by (simp add: Println_def)

lemma callback_no_close: "EvClose p \<notin> set (callback s directionFlag n)"
  by (simp add: callback_def split: option.splits)

lemma pipe_step_no_close:
  "pipe_step s bufLen dstp directionFlag src dst = (evs, b, src', dst') \<Longrightarrow> EvClose p \<notin> set evs"
  by (auto simp: pipe_step_def Println_def callback_def split: prod.splits option.splits if_splits)

lemma pipe_loop_no_close:
  "EvClose p \<notin> set (pipe_loop s bufLen dstp directionFlag polls src dst)"
proof (induction polls arbitrary: src dst)
  case 0
  show ?case by simp
next
  case (Suc polls)
  obtain evs b src' dst' where st: "pipe_step s bufLen dstp directionFlag src dst = (evs, b, src', dst')"
    by (metis prod.exhaust)
  from pipe_step_no_close [OF st] Suc.IH [of src' dst'] show ?case
    by (cases b) (simp_all add: st)
qed

lemma pipeThenClose_closes:
  "count_list (pipeThenClose s bufLen dstp directionFlag polls src dst) (EvClose p)
     = (if p = dstp then 1 else 0)"
  using pipe_loop_no_close [of p s bufLen dstp directionFlag polls src dst]
  by (simp add: pipeThenClose_def count_list_0_iff)


lemma handleConnection_relaying:
  assumes "handShake c = (None, ev, c')"
    and "getRequest ipString s c' = Ret (rawaddr, addr, None, c'')"
    and "Write confirmation c'' = (werr, cw)"
    and "dial rawaddr (server (serverCipher s)) = Inr remote"
  shows "handleConnection ipString s bufLen dial polls_out polls_in c =
           \<lparr>handler = ev @ EvWrite Client confirmation werr
                # (case werr of
                     None \<Rightarrow> []
                   | Some e \<Rightarrow> Println s ''send connection confirmation:'' (Some e))
                @ Println s (''connected to '' @ addr @ '' via '' @ server (serverCipher s)) None
                @ [EvDial rawaddr (server (serverCipher s))] @ [EvWgAdd 1]
                @ pipeThenClose s bufLen Remote directionOutput polls_out cw remote
                @ Println s (''closed connection to '' @ addr) None @ deferred,
            spawned = pipeThenClose s bufLen Client directionInput polls_in remote cw @ [EvWgDone],
            panicked = False\<rparr>"
  using assms by (simp add: handleConnection_def)

lemma handleConnection_close_counts:
  "count_list (pipeThenClose s bufLen dstp directionFlag polls src dst) (EvClose p)
     = (if p = dstp then 1 else 0)
   \<and> (handShake c = (None, ev, c') \<and> getRequest ipString s c' = Ret (rawaddr, addr, None, c'')
        \<and> dial rawaddr (server (serverCipher s)) = Inr remote \<longrightarrow>
      count_list (handler (handleConnection ipString s bufLen dial polls_out polls_in c)
                  @ spawned (handleConnection ipString s bufLen dial polls_out polls_in c))
                 (EvClose Remote) = 1
      \<and> count_list (spawned (handleConnection ipString s bufLen dial polls_out polls_in c))
                   (EvClose Client) = 1
      \<and> count_list (handler (handleConnection ipString s bufLen dial polls_out polls_in c))
                   (EvClose Client) = 1)"
proof (intro conjI impI)
  show "count_list (pipeThenClose s bufLen dstp directionFlag polls src dst) (EvClose p)
          = (if p = dstp then 1 else 0)"
    by (rule pipeThenClose_closes)
next
  assume a: "handShake c = (None, ev, c') \<and> getRequest ipString s c' = Ret (rawaddr, addr, None, c'')
        \<and> dial rawaddr (server (serverCipher s)) = Inr remote"
  obtain werr cw where w: "Write confirmation c'' = (werr, cw)" by (metis prod.exhaust)
  from a have ev: "ev = [EvWrite Client [socksVer5, 0] None]" by (blast dest: handShake_ok_events)
  note h = handleConnection_relaying [of c ev c' ipString s rawaddr addr c'' werr cw dial remote
      bufLen polls_out polls_in]
  have lg: "count_list (Println s msg e) (EvClose q) = 0" for msg e q
    by (simp add: Println_def)
  have cf: "count_list (case werr of None \<Rightarrow> []
              | Some e \<Rightarrow> Println s ''send connection confirmation:'' (Some e)) (EvClose q) = 0" for q
    by (simp add: Println_def split: option.splits)
  show "count_list (handler (handleConnection ipString s bufLen dial polls_out polls_in c)
                  @ spawned (handleConnection ipString s bufLen dial polls_out polls_in c))
                 (EvClose Remote) = 1"
    using a w by (simp add: h ev lg cf pipeThenClose_closes deferred_def)
  show "count_list (spawned (handleConnection ipString s bufLen dial polls_out polls_in c))
                   (EvClose Client) = 1"
    using a w by (simp add: h pipeThenClose_closes)
  show "count_list (handler (handleConnection ipString s bufLen dial polls_out polls_in c))
                   (EvClose Client) = 1"
    using a w by (simp add: h ev lg cf pipeThenClose_closes deferred_def)
qed

lemma getRequest_ipv4_example:
  "getRequest string_of_bytes (NewService sc)
      \<lparr>rd = ([5, 1, 0, 1, 192, 168, 1, 1, 31, 144], None) # rest, wr = w\<rparr>
     = Ret ([1, 192, 168, 1, 1, 31, 144],
            JoinHostPort (string_of_bytes [192, 168, 1, 1]) (Itoa 8080), None,
            \<lparr>rd = rest, wr = w\<rparr>)"
proof -
  have r: "ReadAtLeast \<lparr>rd = ([5, 1, 0, 1, 192, 168, 1, 1, 31, 144], None) # rest, wr = w\<rparr> 263 (4 + 1)
             = ([5, 1, 0, 1, 192, 168, 1, 1, 31, 144], None, \<lparr>rd = rest, wr = w\<rparr>)"
    by (rule ReadAtLeast_one_chunk) simp_all
  have p: "Uint16 [31, 144] = 8080" by (simp add: Uint16_def)
  show ?thesis
    unfolding getRequest_def r
    by (simp add: fill_def socksVer5_def socksCmdConnect_def reqLen_def lenIPv4_def
          request_result_def go_slice_def NewService_def debug_host_def p del: Itoa.simps)
qed

lemma handShake_one_method_written:
  "handShake \<lparr>rd = ([5, 1, 0], None) # rest, wr = None # w\<rparr>
     = (None, [EvWrite Client [5, 0] None], \<lparr>rd = rest, wr = w\<rparr>)"
  using ReadAtLeast_one_chunk [of "1 + 1" "[5, 1, 0]" 258 rest "None # w"]
  by (simp add: handShake_def fill_def socksVer5_def Write_def)

text \<open>
  C2 (as amended). Every call of \<open>pipeThenClose\<close> closes its destination exactly once
  and never its source. For a connection that reaches the relays (handshake, request
  and dial succeed), when the handler and the goroutine it started are done, the
  remote connection has been closed exactly once, by the outbound relay, and the
  client connection has been closed by the inbound relay and once more by the
  deferred \<open>conn.Close()\<close> of the handler.
\<close>

theorem relay_close_counts:
  "count_list (pipeThenClose s bufLen dstp directionFlag polls src dst) (EvClose p)
     = (if p = dstp then 1 else 0)
   \<and> (handShake c = (None, ev, c') \<and> getRequest ipString s c' = Ret (rawaddr, addr, None, c'')
        \<and> dial rawaddr (server (serverCipher s)) = Inr remote \<longrightarrow>
      count_list (handler (handleConnection ipString s bufLen dial polls_out polls_in c)
                  @ spawned (handleConnection ipString s bufLen dial polls_out polls_in c))
                 (EvClose Remote) = 1
      \<and> count_list (spawned (handleConnection ipString s bufLen dial polls_out polls_in c))
                   (EvClose Client) = 1
      \<and> count_list (handler (handleConnection ipString s bufLen dial polls_out polls_in c))
                   (EvClose Client) = 1)"
  by (rule handleConnection_close_counts)

theorem relay_close_counts_witness:
  "handShake \<lparr>rd = [([5, 1, 0], None), ([5, 1, 0, 1, 192, 168, 1, 1, 31, 144], None), ([71, 69, 84], None)],
              wr = []\<rparr>
     = (None, [EvWrite Client [5, 0] None],
        \<lparr>rd = [([5, 1, 0, 1, 192, 168, 1, 1, 31, 144], None), ([71, 69, 84], None)], wr = []\<rparr>)
   \<and> getRequest string_of_bytes (NewService \<lparr>server = ''tunnel:8388''\<rparr>)
         \<lparr>rd = [([5, 1, 0, 1, 192, 168, 1, 1, 31, 144], None), ([71, 69, 84], None)], wr = []\<rparr>
       = Ret ([1, 192, 168, 1, 1, 31, 144],
              JoinHostPort (string_of_bytes [192, 168, 1, 1]) (Itoa 8080), None,
              \<lparr>rd = [([71, 69, 84], None)], wr = []\<rparr>)
   \<and> dial_succeeds \<lparr>rd = [([72, 73], None)], wr = []\<rparr> [1, 192, 168, 1, 1, 31, 144] ''tunnel:8388''
       = Inr \<lparr>rd = [([72, 73], None)], wr = []\<rparr>
   \<and> count_list
         (handler (handleConnection string_of_bytes (NewService \<lparr>server = ''tunnel:8388''\<rparr>) 4096
                     (dial_succeeds \<lparr>rd = [([72, 73], None)], wr = []\<rparr>) 3 3
                     \<lparr>rd = [([5, 1, 0], None), ([5, 1, 0, 1, 192, 168, 1, 1, 31, 144], None),
                            ([71, 69, 84], None)], wr = []\<rparr>)
          @ spawned (handleConnection string_of_bytes (NewService \<lparr>server = ''tunnel:8388''\<rparr>) 4096
                     (dial_succeeds \<lparr>rd = [([72, 73], None)], wr = []\<rparr>) 3 3
                     \<lparr>rd = [([5, 1, 0], None), ([5, 1, 0, 1, 192, 168, 1, 1, 31, 144], None),
                            ([71, 69, 84], None)], wr = []\<rparr>))
         (EvClose Remote) = 1
   \<and> count_list
         (spawned (handleConnection string_of_bytes (NewService \<lparr>server = ''tunnel:8388''\<rparr>) 4096
                     (dial_succeeds \<lparr>rd = [([72, 73], None)], wr = []\<rparr>) 3 3
                     \<lparr>rd = [([5, 1, 0], None), ([5, 1, 0, 1, 192, 168, 1, 1, 31, 144], None),
                            ([71, 69, 84], None)], wr = []\<rparr>))
         (EvClose Client) = 1"
  using relay_close_counts
          [where c = "\<lparr>rd = [([5, 1, 0], None), ([5, 1, 0, 1, 192, 168, 1, 1, 31, 144], None),
                              ([71, 69, 84], None)], wr = []\<rparr>"
             and ev = "[EvWrite Client [5, 0] None]"
             and c' = "\<lparr>rd = [([5, 1, 0, 1, 192, 168, 1, 1, 31, 144], None), ([71, 69, 84], None)],
                        wr = []\<rparr>"
             and ipString = string_of_bytes and s = "NewService \<lparr>server = ''tunnel:8388''\<rparr>"
             and rawaddr = "[1, 192, 168, 1, 1, 31, 144]"
             and addr = "JoinHostPort (string_of_bytes [192, 168, 1, 1]) (Itoa 8080)"
             and c'' = "\<lparr>rd = [([71, 69, 84], None)], wr = []\<rparr>"
             and dial = "dial_succeeds \<lparr>rd = [([72, 73], None)], wr = []\<rparr>"
             and remote = "\<lparr>rd = [([72, 73], None)], wr = []\<rparr>"
             and bufLen = 4096 and polls_out = 3 and polls_in = 3]
        handShake_one_method
          [of "[([5, 1, 0, 1, 192, 168, 1, 1, 31, 144], None), ([71, 69, 84], None)]"]
        getRequest_ipv4_example [of "\<lparr>server = ''tunnel:8388''\<rparr>" "[([71, 69, 84], None)]" "[]"]
  by (simp add: dial_succeeds_def NewService_def del: Itoa.simps)

text \<open>
  C2 as first stated fails: in a run that reaches the relays the client connection is
  closed twice.
\<close>

theorem client_connection_closed_twice:
  "count_list
     (handler (handleConnection string_of_bytes (NewService \<lparr>server = ''tunnel:8388''\<rparr>) 4096
                 (dial_succeeds \<lparr>rd = [([72, 73], None)], wr = []\<rparr>) 3 3
                 \<lparr>rd = [([5, 1, 0], None), ([5, 1, 0, 1, 192, 168, 1, 1, 31, 144], None),
                        ([71, 69, 84], None)], wr = []\<rparr>)
      @ spawned (handleConnection string_of_bytes (NewService \<lparr>server = ''tunnel:8388''\<rparr>) 4096
                 (dial_succeeds \<lparr>rd = [([72, 73], None)], wr = []\<rparr>) 3 3
                 \<lparr>rd = [([5, 1, 0], None), ([5, 1, 0, 1, 192, 168, 1, 1, 31, 144], None),
                        ([71, 69, 84], None)], wr = []\<rparr>))
     (EvClose Client) = 2"
  using handleConnection_close_counts
          [where c = "\<lparr>rd = [([5, 1, 0], None), ([5, 1, 0, 1, 192, 168, 1, 1, 31, 144], None),
                              ([71, 69, 84], None)], wr = []\<rparr>"
             and ev = "[EvWrite Client [5, 0] None]"
             and c' = "\<lparr>rd = [([5, 1, 0, 1, 192, 168, 1, 1, 31, 144], None), ([71, 69, 84], None)],
                        wr = []\<rparr>"
             and ipString = string_of_bytes and s = "NewService \<lparr>server = ''tunnel:8388''\<rparr>"
             and rawaddr = "[1, 192, 168, 1, 1, 31, 144]"
             and addr = "JoinHostPort (string_of_bytes [192, 168, 1, 1]) (Itoa 8080)"
             and c'' = "\<lparr>rd = [([71, 69, 84], None)], wr = []\<rparr>"
             and dial = "dial_succeeds \<lparr>rd = [([72, 73], None)], wr = []\<rparr>"
             and remote = "\<lparr>rd = [([72, 73], None)], wr = []\<rparr>"
             and bufLen = 4096 and polls_out = 3 and polls_in = 3]
        handShake_one_method
          [of "[([5, 1, 0, 1, 192, 168, 1, 1, 31, 144], None), ([71, 69, 84], None)]"]
        getRequest_ipv4_example [of "\<lparr>server = ''tunnel:8388''\<rparr>" "[([71, 69, 84], None)]" "[]"]
  by (simp add: dial_succeeds_def NewService_def del: Itoa.simps)

lemma handleConnection_dials:
  assumes "handShake c = (None, ev, c')"
    and "getRequest ipString s c' = Ret (rawaddr, addr, None, c'')"
  shows "\<exists>rest. handler (handleConnection ipString s bufLen dial polls_out polls_in c)
           = [EvWrite Client [5, 0] None,
              EvWrite Client [0x05, 0x00, 0x00, 0x01, 0x00, 0x00, 0x00, 0x00, 0x08, 0x43]
                (fst (Write confirmation c''))]
             @ (case fst (Write confirmation c'') of
                  None \<Rightarrow> []
                | Some e \<Rightarrow> Println s ''send connection confirmation:'' (Some e))
             @ Println s (''connected to '' @ addr @ '' via '' @ server (serverCipher s)) None
             @ EvDial rawaddr (server (serverCipher s)) # rest"
proof -
  from handShake_ok_events [OF assms(1)] have ev: "ev = [EvWrite Client [5, 0] None]"
    by (simp add: socksVer5_def)
  obtain werr cw where w: "Write confirmation c'' = (werr, cw)" by (metis prod.exhaust)
  show ?thesis
    using assms w ev
    by (cases "dial rawaddr (server (serverCipher s))")
       (simp_all add: handleConnection_def confirmation_def)
qed

text \<open>
  C9. When the handshake and the request parsing succeed, the events of the handler
  start with the reply of the handshake, then the write to the client of exactly the
  ten bytes \<open>05 00 00 01 00 00 00 00 08 43\<close>, then log lines only, then the dial of
  the tunnel: the confirmation is written before the dial is attempted.
\<close>

theorem confirmation_before_dial:
  "handShake c = (None, ev, c') \<and> getRequest ipString s c' = Ret (rawaddr, addr, None, c'') \<longrightarrow>
     (\<exists>rest. handler (handleConnection ipString s bufLen dial polls_out polls_in c)
        = [EvWrite Client [5, 0] None,
           EvWrite Client [0x05, 0x00, 0x00, 0x01, 0x00, 0x00, 0x00, 0x00, 0x08, 0x43]
             (fst (Write confirmation c''))]
          @ (case fst (Write confirmation c'') of
               None \<Rightarrow> []
             | Some e \<Rightarrow> Println s ''send connection confirmation:'' (Some e))
          @ Println s (''connected to '' @ addr @ '' via '' @ server (serverCipher s)) None
          @ EvDial rawaddr (server (serverCipher s)) # rest)"
  using handleConnection_dials by blast

theorem confirmation_before_dial_witness:
  "handShake \<lparr>rd = [([5, 1, 0], None), ([5, 1, 0, 1, 192, 168, 1, 1, 31, 144], None)], wr = []\<rparr>
     = (None, [EvWrite Client [5, 0] None],
        \<lparr>rd = [([5, 1, 0, 1, 192, 168, 1, 1, 31, 144], None)], wr = []\<rparr>)
   \<and> getRequest string_of_bytes (NewService \<lparr>server = ''tunnel:8388''\<rparr>)
         \<lparr>rd = [([5, 1, 0, 1, 192, 168, 1, 1, 31, 144], None)], wr = []\<rparr>
       = Ret ([1, 192, 168, 1, 1, 31, 144],
              JoinHostPort (string_of_bytes [192, 168, 1, 1]) (Itoa 8080), None,
              \<lparr>rd = [], wr = []\<rparr>)
   \<and> (\<exists>rest. handler (handleConnection string_of_bytes (NewService \<lparr>server = ''tunnel:8388''\<rparr>)
                          4096 (dial_fails (OpError False)) 3 3
                          \<lparr>rd = [([5, 1, 0], None), ([5, 1, 0, 1, 192, 168, 1, 1, 31, 144], None)],
                             wr = []\<rparr>)
        = [EvWrite Client [5, 0] None,
           EvWrite Client [0x05, 0x00, 0x00, 0x01, 0x00, 0x00, 0x00, 0x00, 0x08, 0x43] None,
           EvLog (''connected to '' @ JoinHostPort (string_of_bytes [192, 168, 1, 1]) (Itoa 8080)
                    @ '' via tunnel:8388'') None,
           EvDial [1, 192, 168, 1, 1, 31, 144] ''tunnel:8388'']
          @ rest)"
  using confirmation_before_dial
          [where c = "\<lparr>rd = [([5, 1, 0], None), ([5, 1, 0, 1, 192, 168, 1, 1, 31, 144], None)],
                       wr = []\<rparr>"
             and ev = "[EvWrite Client [5, 0] None]"
             and c' = "\<lparr>rd = [([5, 1, 0, 1, 192, 168, 1, 1, 31, 144], None)], wr = []\<rparr>"
             and ipString = string_of_bytes and s = "NewService \<lparr>server = ''tunnel:8388''\<rparr>"
             and rawaddr = "[1, 192, 168, 1, 1, 31, 144]"
             and addr = "JoinHostPort (string_of_bytes [192, 168, 1, 1]) (Itoa 8080)"
             and c'' = "\<lparr>rd = [], wr = []\<rparr>"
             and dial = "dial_fails (OpError False)"
             and bufLen = 4096 and polls_out = 3 and polls_in = 3]
        handShake_one_method [of "[([5, 1, 0, 1, 192, 168, 1, 1, 31, 144], None)]"]
        getRequest_ipv4_example [of "\<lparr>server = ''tunnel:8388''\<rparr>" "[]" "[]"]
  by (simp add: NewService_def Write_def Println_def del: Itoa.simps)

text \<open>
  C10. When the write of the confirmation fails, the handler does not end there and
  does not panic: it logs the error and goes on to dial the tunnel; when the dial
  succeeds it runs the outbound relay itself and has started the inbound relay in a
  goroutine of its own.
\<close>

theorem confirmation_failure_goes_on:
  "handShake c = (None, ev, c') \<and> getRequest ipString s c' = Ret (rawaddr, addr, None, c'')
   \<and> Write confirmation c'' = (Some e, cw) \<longrightarrow>
     \<not> panicked (handleConnection ipString s bufLen dial polls_out polls_in c)
     \<and> (\<exists>rest. handler (handleConnection ipString s bufLen dial polls_out polls_in c)
           = ev @ EvWrite Client confirmation (Some e)
               # Println s ''send connection confirmation:'' (Some e)
               @ Println s (''connected to '' @ addr @ '' via '' @ server (serverCipher s)) None
               @ EvDial rawaddr (server (serverCipher s)) # rest)
     \<and> (dial rawaddr (server (serverCipher s)) = Inr remote \<longrightarrow>
          handler (handleConnection ipString s bufLen dial polls_out polls_in c)
            = ev @ EvWrite Client confirmation (Some e)
                # Println s ''send connection confirmation:'' (Some e)
                @ Println s (''connected to '' @ addr @ '' via '' @ server (serverCipher s)) None
                @ [EvDial rawaddr (server (serverCipher s)), EvWgAdd 1]
                @ pipeThenClose s bufLen Remote directionOutput polls_out cw remote
                @ Println s (''closed connection to '' @ addr) None @ deferred
          \<and> spawned (handleConnection ipString s bufLen dial polls_out polls_in c)
            = pipeThenClose s bufLen Client directionInput polls_in remote cw @ [EvWgDone])"
proof (intro impI)
  assume a: "handShake c = (None, ev, c') \<and> getRequest ipString s c' = Ret (rawaddr, addr, None, c'')
   \<and> Write confirmation c'' = (Some e, cw)"
  show "\<not> panicked (handleConnection ipString s bufLen dial polls_out polls_in c)
     \<and> (\<exists>rest. handler (handleConnection ipString s bufLen dial polls_out polls_in c)
           = ev @ EvWrite Client confirmation (Some e)
               # Println s ''send connection confirmation:'' (Some e)
               @ Println s (''connected to '' @ addr @ '' via '' @ server (serverCipher s)) None
               @ EvDial rawaddr (server (serverCipher s)) # rest)
     \<and> (dial rawaddr (server (serverCipher s)) = Inr remote \<longrightarrow>
          handler (handleConnection ipString s bufLen dial polls_out polls_in c)
            = ev @ EvWrite Client confirmation (Some e)
                # Println s ''send connection confirmation:'' (Some e)
                @ Println s (''connected to '' @ addr @ '' via '' @ server (serverCipher s)) None
                @ [EvDial rawaddr (server (serverCipher s)), EvWgAdd 1]
                @ pipeThenClose s bufLen Remote directionOutput polls_out cw remote
                @ Println s (''closed connection to '' @ addr) None @ deferred
          \<and> spawned (handleConnection ipString s bufLen dial polls_out polls_in c)
            = pipeThenClose s bufLen Client directionInput polls_in remote cw @ [EvWgDone])"
    using a
    by (cases "dial rawaddr (server (serverCipher s))") (simp_all add: handleConnection_def)
qed

theorem confirmation_failure_goes_on_witness:
  "handShake \<lparr>rd = [([5, 1, 0], None), ([5, 1, 0, 1, 192, 168, 1, 1, 31, 144], None), ([71, 69, 84], None)],
              wr = [None, Some (OpError False)]\<rparr>
     = (None, [EvWrite Client [5, 0] None],
        \<lparr>rd = [([5, 1, 0, 1, 192, 168, 1, 1, 31, 144], None), ([71, 69, 84], None)],
           wr = [Some (OpError False)]\<rparr>)
   \<and> getRequest string_of_bytes (NewService \<lparr>server = ''tunnel:8388''\<rparr>)
         \<lparr>rd = [([5, 1, 0, 1, 192, 168, 1, 1, 31, 144], None), ([71, 69, 84], None)],
            wr = [Some (OpError False)]\<rparr>
       = Ret ([1, 192, 168, 1, 1, 31, 144],
              JoinHostPort (string_of_bytes [192, 168, 1, 1]) (Itoa 8080), None,
              \<lparr>rd = [([71, 69, 84], None)], wr = [Some (OpError False)]\<rparr>)
   \<and> Write confirmation \<lparr>rd = [([71, 69, 84], None)], wr = [Some (OpError False)]\<rparr>
       = (Some (OpError False), \<lparr>rd = [([71, 69, 84], None)], wr = []\<rparr>)
   \<and> dial_succeeds \<lparr>rd = [([72, 73], None)], wr = []\<rparr> [1, 192, 168, 1, 1, 31, 144] ''tunnel:8388''
       = Inr \<lparr>rd = [([72, 73], None)], wr = []\<rparr>
   \<and> spawned (handleConnection string_of_bytes (NewService \<lparr>server = ''tunnel:8388''\<rparr>) 4096
                 (dial_succeeds \<lparr>rd = [([72, 73], None)], wr = []\<rparr>) (Suc (Suc 0)) (Suc (Suc 0))
                 \<lparr>rd = [([5, 1, 0], None), ([5, 1, 0, 1, 192, 168, 1, 1, 31, 144], None),
                        ([71, 69, 84], None)],
                    wr = [None, Some (OpError False)]\<rparr>)
       = [EvWrite Client [72, 73] None, EvClose Client, EvWgDone]
   \<and> handler (handleConnection string_of_bytes (NewService \<lparr>server = ''tunnel:8388''\<rparr>) 4096
                 (dial_succeeds \<lparr>rd = [([72, 73], None)], wr = []\<rparr>) (Suc (Suc 0)) (Suc (Suc 0))
                 \<lparr>rd = [([5, 1, 0], None), ([5, 1, 0, 1, 192, 168, 1, 1, 31, 144], None),
                        ([71, 69, 84], None)],
                    wr = [None, Some (OpError False)]\<rparr>)
       = [EvWrite Client [5, 0] None,
          EvWrite Client [5, 0, 0, 1, 0, 0, 0, 0, 8, 67] (Some (OpError False)),
          EvLog ''send connection confirmation:'' (Some (OpError False)),
          EvLog (''connected to '' @ JoinHostPort (string_of_bytes [192, 168, 1, 1]) (Itoa 8080)
                   @ '' via tunnel:8388'') None,
          EvDial [1, 192, 168, 1, 1, 31, 144] ''tunnel:8388'', EvWgAdd 1,
          EvWrite Remote [71, 69, 84] None, EvClose Remote,
          EvLog (''closed connection to ''
                   @ JoinHostPort (string_of_bytes [192, 168, 1, 1]) (Itoa 8080)) None,
          EvClose Client, EvWgDone]"
  using confirmation_failure_goes_on
          [where c = "\<lparr>rd = [([5, 1, 0], None), ([5, 1, 0, 1, 192, 168, 1, 1, 31, 144], None),
                              ([71, 69, 84], None)],
                       wr = [None, Some (OpError False)]\<rparr>"
             and ev = "[EvWrite Client [5, 0] None]"
             and c' = "\<lparr>rd = [([5, 1, 0, 1, 192, 168, 1, 1, 31, 144], None), ([71, 69, 84], None)],
                        wr = [Some (OpError False)]\<rparr>"
             and ipString = string_of_bytes and s = "NewService \<lparr>server = ''tunnel:8388''\<rparr>"
             and rawaddr = "[1, 192, 168, 1, 1, 31, 144]"
             and addr = "JoinHostPort (string_of_bytes [192, 168, 1, 1]) (Itoa 8080)"
             and c'' = "\<lparr>rd = [([71, 69, 84], None)], wr = [Some (OpError False)]\<rparr>"
             and e = "OpError False" and cw = "\<lparr>rd = [([71, 69, 84], None)], wr = []\<rparr>"
             and dial = "dial_succeeds \<lparr>rd = [([72, 73], None)], wr = []\<rparr>"
             and remote = "\<lparr>rd = [([72, 73], None)], wr = []\<rparr>"
             and bufLen = 4096 and polls_out = "Suc (Suc 0)" and polls_in = "Suc (Suc 0)"]
        handShake_one_method_written
          [of "[([5, 1, 0, 1, 192, 168, 1, 1, 31, 144], None), ([71, 69, 84], None)]"
              "[Some (OpError False)]"]
        getRequest_ipv4_example
          [of "\<lparr>server = ''tunnel:8388''\<rparr>" "[([71, 69, 84], None)]" "[Some (OpError False)]"]
  by (simp add: NewService_def Write_def Println_def dial_succeeds_def confirmation_def
        pipeThenClose_def pipe_step_def Read_def callback_def deferred_def del: Itoa.simps)

end
